theory Spec2Isabelle
  imports Main "HOL-Library.Word"
begin

section \<open>Go library functions used by the controller\<close>

subsection \<open>Package strings\<close>

text \<open>
  Go strings are byte sequences; they are modelled as \<^typ>\<open>string\<close> (a list of 8-bit
  characters). The controller only ever splits and joins on the one-byte separator
  \<open>"/"\<close>, so the separator of \<open>strings.Split\<close> is a single character here.

  \<open>strings.IndexByte(s, c)\<close>: index of the first \<open>c\<close> in \<open>s\<close>, Go's \<open>-1\<close> is \<open>None\<close>.
\<close>

fun strings_IndexByte :: "string \<Rightarrow> char \<Rightarrow> nat option" where
  "strings_IndexByte [] c = None"
| "strings_IndexByte (x # xs) c =
     (if x = c then Some 0 else map_option Suc (strings_IndexByte xs c))"

text \<open>
  \<open>strings.Split(s, sep)\<close> for a one-byte \<open>sep\<close>. The library loop is
  \<^verbatim>\<open>
    for i < n { m := Index(s, sep); if m < 0 { break }
                a[i] = s[:m]; s = s[m+len(sep):]; i++ }
    a[i] = s
  \<close>
  so the result always has at least one element: splitting the empty string yields the
  one-element slice holding the empty string.
\<close>

function strings_Split :: "string \<Rightarrow> char \<Rightarrow> string list" where
  "strings_Split s sep =
     (case strings_IndexByte s sep of
        None \<Rightarrow> [s]
      | Some m \<Rightarrow> take m s # strings_Split (drop (m + 1) s) sep)"
  by pat_completeness auto
termination
proof (relation "measure (\<lambda>(s, sep). length s)")
  show "wf (measure (\<lambda>(s, sep). length s))"
    by simp
next
  fix s :: string and sep :: char and m :: nat
  assume found: "strings_IndexByte s sep = Some m"
  have "strings_IndexByte t sep = Some k \<Longrightarrow> k < length t" for t k
    by (induction t arbitrary: k) (auto split: if_splits)
  from this [OF found] have "m < length s" .
  then show "((drop (m + 1) s, sep), (s, sep)) \<in> measure (\<lambda>(s, sep). length s)"
    by simp
qed

declare strings_Split.simps [simp del]

text \<open>
  \<open>strings.Join(elems, sep)\<close>: no element gives the empty string, one element is
  returned as it is, otherwise the elements are concatenated with \<open>sep\<close> between them.
\<close>

fun strings_Join :: "string list \<Rightarrow> string \<Rightarrow> string" where
  "strings_Join [] sep = []"
| "strings_Join [x] sep = x"
| "strings_Join (x # y # ys) sep = x @ sep @ strings_Join (y # ys) sep"

section \<open>The volume and its identifier\<close>

text \<open>
  \<open>type nfsVolume struct { id, server, baseDir, subDir string }\<close>. The field \<open>id\<close> is
  written \<open>id'\<close> because \<open>id\<close> is the identity function of HOL.
\<close>

record nfsVolume =
  id' :: string
  server :: string
  baseDir :: string
  subDir :: string

text \<open>The \<open>iota\<close> constants fixing the order of the elements of a volume id.\<close>

definition idServer :: nat where "idServer = 0"
definition idBaseDir :: nat where "idBaseDir = 1"
definition idSubDir :: nat where "idSubDir = 2"
definition totalIDElements :: nat where "totalIDElements = 3"

text \<open>The access modes of the CSI enum \<open>VolumeCapability_AccessMode_Mode\<close>.\<close>

datatype AccessMode_Mode =
    UNKNOWN
  | SINGLE_NODE_WRITER
  | SINGLE_NODE_READER_ONLY
  | MULTI_NODE_READER_ONLY
  | MULTI_NODE_SINGLE_WRITER
  | MULTI_NODE_MULTI_WRITER

text \<open>
  The errors built with \<open>fmt.Errorf\<close> in the controller, one constructor per message
  format, carrying the formatted arguments.
\<close>

datatype error =
    ErrCapabilitiesMustBeProvided
      \<comment> \<open>"volume capabilities must be provided"\<close>
  | ErrCapabilityMustBeProvided
      \<comment> \<open>"volume capability must be provided"\<close>
  | ErrAccessModeNotSet
      \<comment> \<open>"volume capability access mode not set"\<close>
  | ErrAccessModeNotSupported AccessMode_Mode
      \<comment> \<open>"driver does not support access mode: %v"\<close>
  | ErrAccessTypeNotSet
      \<comment> \<open>"volume capability access type not set"\<close>
  | ErrOnlyMountAccessType
      \<comment> \<open>"driver only supports mount access type volume capability"\<close>
  | ErrInvalidParameter string
      \<comment> \<open>"invalid parameter %q"\<close>
  | ErrRequiredParameter string
      \<comment> \<open>"%v is a required parameter"\<close>
  | ErrUnexpectedFormat string nat
      \<comment> \<open>"volume id %q unexpected format: got %v tokens"\<close>

text \<open>\<open>getNfsVolFromId\<close>: given a CSI volume id, return a \<open>nfsVolume\<close>.\<close>

definition getNfsVolFromId :: "string \<Rightarrow> error + nfsVolume" where
  "getNfsVolFromId i =
     (let tokens = strings_Split i CHR ''/'' in
      if length tokens \<noteq> totalIDElements
      then Inl (ErrUnexpectedFormat i (length tokens))
      else Inr \<lparr>id' = i,
                server = tokens ! idServer,
                baseDir = tokens ! idBaseDir,
                subDir = tokens ! idSubDir\<rparr>)"

text \<open>\<open>getVolumeIdFromNfsVol\<close>: given a \<open>nfsVolume\<close>, return a CSI volume id.\<close>

definition getVolumeIdFromNfsVol :: "nfsVolume \<Rightarrow> string" where
  "getVolumeIdFromNfsVol vol =
     (let idElements = replicate totalIDElements [];
          idElements = idElements[idServer := server vol];
          idElements = idElements[idBaseDir := baseDir vol];
          idElements = idElements[idSubDir := subDir vol]
      in strings_Join idElements ''/'')"

subsection \<open>Package path/filepath (Unix)\<close>

text \<open>
  \<open>filepath.Clean\<close> follows the rules of its documentation: runs of separators count as
  one, every \<open>.\<close> element is dropped, every inner \<open>..\<close> element is dropped together with
  the element before it, a \<open>..\<close> that would climb above the root of a rooted path is
  dropped, and an empty result is \<open>.\<close>. The function \<open>clean_element\<close> is the body of the
  library's loop for one path element: \<open>out\<close> holds the elements written so far.
\<close>

definition clean_element :: "bool \<Rightarrow> string list \<Rightarrow> string \<Rightarrow> string list" where
  "clean_element rooted out e =
     (if e = [] then out
      else if e = ''.'' then out
      else if e = ''..'' then
        (if out \<noteq> [] \<and> last out \<noteq> ''..'' then butlast out
         else if \<not> rooted then out @ [''..'']
         else out)
      else out @ [e])"

definition filepath_Clean :: "string \<Rightarrow> string" where
  "filepath_Clean path =
     (if path = [] then ''.''
      else
        let rooted = (hd path = CHR ''/'');
            out = foldl (clean_element rooted) [] (strings_Split path CHR ''/'')
        in if rooted then ''/'' @ strings_Join out ''/''
           else if out = [] then ''.''
           else strings_Join out ''/'')"

text \<open>
  \<open>filepath.Join(elem...)\<close>: leading empty elements are ignored, the rest is joined with
  the separator and cleaned; when every element is empty the result is empty.
\<close>

fun filepath_Join :: "string list \<Rightarrow> string" where
  "filepath_Join [] = []"
| "filepath_Join (e # es) =
     (if e \<noteq> [] then filepath_Clean (strings_Join (e # es) ''/'') else filepath_Join es)"

section \<open>CSI messages\<close>

text \<open>
  The messages of the CSI library as far as the controller reads or builds them. A Go
  pointer that may be \<open>nil\<close> is an \<open>option\<close>; the generated getters are nil-safe.
\<close>

type_synonym int64 = "64 word"

record VolumeCapability_MountVolume =
  FsType :: string
  MountFlags :: "string list"

datatype VolumeCapability_BlockVolume = VolumeCapability_BlockVolume

text \<open>The \<open>oneof access_type\<close>: a wrapper around a block or a mount descriptor.\<close>

datatype VolumeCapability_AccessType =
    VolumeCapability_Block "VolumeCapability_BlockVolume option"
  | VolumeCapability_Mount "VolumeCapability_MountVolume option"

record VolumeCapability_AccessMode =
  Mode :: AccessMode_Mode

record VolumeCapability =
  AccessType :: "VolumeCapability_AccessType option"
  AccessMode :: "VolumeCapability_AccessMode option"

definition GetAccessMode :: "VolumeCapability \<Rightarrow> VolumeCapability_AccessMode option" where
  "GetAccessMode c = AccessMode c"

definition GetAccessType :: "VolumeCapability \<Rightarrow> VolumeCapability_AccessType option" where
  "GetAccessType c = AccessType c"

definition GetMount :: "VolumeCapability \<Rightarrow> VolumeCapability_MountVolume option" where
  "GetMount c =
     (case GetAccessType c of
        Some (VolumeCapability_Mount x) \<Rightarrow> x
      | _ \<Rightarrow> None)"

record CapacityRange =
  RequiredBytes :: int64
  LimitBytes :: int64

definition GetRequiredBytes :: "CapacityRange option \<Rightarrow> int64" where
  "GetRequiredBytes r = (case r of None \<Rightarrow> 0 | Some x \<Rightarrow> RequiredBytes x)"

text \<open>
  \<open>Parameters\<close> is a Go map ranged over by \<open>newNFSVolume\<close>. The order in which \<open>range\<close>
  visits a map is not specified, and the result of that loop can depend on it, so the
  parameters are the list of the map's entries in the order this call's loop visits
  them. The keys of a map are distinct.
\<close>

record CreateVolumeRequest =
  Name :: string
  CapacityRange :: "CapacityRange option"
  VolumeCapabilities :: "VolumeCapability option list"
  Parameters :: "(string \<times> string) list"

record csi_Volume =
  CapacityBytes :: int64
  VolumeId :: string
  VolumeContext :: "string \<rightharpoonup> string"

record CreateVolumeResponse =
  Volume :: csi_Volume

record DeleteVolumeRequest =
  VolumeId :: string

datatype DeleteVolumeResponse = DeleteVolumeResponse

record NodePublishVolumeRequest =
  TargetPath :: string
  VolumeContext :: "string \<rightharpoonup> string"

record NodeUnpublishVolumeRequest =
  TargetPath :: string

text \<open>The gRPC status returned to the caller: a code and the message it was built from.\<close>

datatype codes = OK | InvalidArgument | Internal

datatype message =
    MsgNameMustBeProvided
      \<comment> \<open>"CreateVolume name must be provided"\<close>
  | MsgVolumeIdEmpty
      \<comment> \<open>"volume id is empty"\<close>
  | MsgError error
      \<comment> \<open>\<open>err.Error()\<close> of a validation error\<close>
  | MsgFailedToMount string
      \<comment> \<open>"failed to mount nfs server: %v"\<close>
  | MsgFailedToMakeSubdirectory string
      \<comment> \<open>"failed to make subdirectory: %v"\<close>
  | MsgFailedToDeleteSubdirectory string
      \<comment> \<open>"failed to delete subdirectory: %v"\<close>

datatype status = Status codes message

text \<open>
  A handler returns a response and an \<open>error\<close>, of which exactly one is \<open>nil\<close>: the sum
  \<open>status + response\<close>. \<open>status.Code(err)\<close> is \<open>OK\<close> on a \<open>nil\<close> error.
\<close>

fun status_Code :: "status + 'a \<Rightarrow> codes" where
  "status_Code (Inl (Status c m)) = c"
| "status_Code (Inr resp) = OK"

section \<open>The driver and its collaborators\<close>

text \<open>
  Of \<open>nfsDriver\<close> the controller reads the map \<open>cap\<close> of enabled access modes and the
  node server \<open>ns\<close>. Reading a Go map at a key it does not hold gives \<open>false\<close>.
\<close>

record nfsDriver =
  cap :: "AccessMode_Mode \<rightharpoonup> bool"

definition cap_index :: "nfsDriver \<Rightarrow> AccessMode_Mode \<Rightarrow> bool" where
  "cap_index d m = (case cap d m of None \<Rightarrow> False | Some b \<Rightarrow> b)"

fun AddVolumeCapabilityAccessModes :: "nfsDriver \<Rightarrow> AccessMode_Mode list \<Rightarrow> nfsDriver" where
  "AddVolumeCapabilityAccessModes n [] = n"
| "AddVolumeCapabilityAccessModes n (c # vc) =
     AddVolumeCapabilityAccessModes (n\<lparr>cap := (cap n)(c \<mapsto> True)\<rparr>) vc"

definition NewNFSdriver :: nfsDriver where
  "NewNFSdriver =
     (let n = \<lparr>cap = Map.empty\<rparr>;
          vcam = [SINGLE_NODE_WRITER, SINGLE_NODE_READER_ONLY, MULTI_NODE_READER_ONLY,
                  MULTI_NODE_SINGLE_WRITER, MULTI_NODE_MULTI_WRITER]
      in AddVolumeCapabilityAccessModes n vcam)"

definition internalMountDir :: string where
  "internalMountDir = ''/provisioner-working-mounts''"

record ControllerServer =
  Driver :: nfsDriver
  workingMountDir :: string

definition NewControllerServer :: "nfsDriver \<Rightarrow> string \<Rightarrow> ControllerServer" where
  "NewControllerServer d workingDir = \<lparr>Driver = d, workingMountDir = workingDir\<rparr>"

text \<open>
  What the controller calls outside itself is a parameter of the model: the node server's
  \<open>NodePublishVolume\<close> and \<open>NodeUnpublishVolume\<close> (the mounter), \<open>os.Mkdir\<close> and
  \<open>os.RemoveAll\<close>, each a function on a state of the world \<open>'w\<close> returning Go's \<open>error\<close>
  (\<open>None\<close> is \<open>nil\<close>, otherwise the text of the error) and the new world; and
  \<open>strings.ToLower\<close>, whose Unicode case tables are not part of this development.
  Logging is not modelled.
\<close>

record 'w platform =
  strings_ToLower :: "string \<Rightarrow> string"
  NodePublishVolume :: "NodePublishVolumeRequest \<Rightarrow> 'w \<Rightarrow> string option \<times> 'w"
  NodeUnpublishVolume :: "NodeUnpublishVolumeRequest \<Rightarrow> 'w \<Rightarrow> string option \<times> 'w"
  os_Mkdir :: "string \<Rightarrow> nat \<Rightarrow> 'w \<Rightarrow> string option \<times> 'w"
  os_RemoveAll :: "string \<Rightarrow> 'w \<Rightarrow> string option \<times> 'w"

section \<open>The controller server\<close>

definition paramServer :: string where "paramServer = ''server''"
definition paramBaseDir :: string where "paramBaseDir = ''base-dir''"
definition attrServer :: string where "attrServer = ''server''"
definition attrShare :: string where "attrShare = ''share''"

subsection \<open>Capability validation\<close>

definition validateVolumeCapability :: "ControllerServer \<Rightarrow> VolumeCapability option \<Rightarrow> error option" where
  "validateVolumeCapability cs c =
     (case c of
        None \<Rightarrow> Some ErrCapabilityMustBeProvided
      | Some c \<Rightarrow>
          (case GetAccessMode c of
             None \<Rightarrow> Some ErrAccessModeNotSet
           | Some accessMode \<Rightarrow>
               if \<not> cap_index (Driver cs) (Mode accessMode)
               then Some (ErrAccessModeNotSupported (Mode accessMode))
               else
                 (case GetAccessType c of
                    None \<Rightarrow> Some ErrAccessTypeNotSet
                  | Some accessType \<Rightarrow>
                      (case GetMount c of
                         None \<Rightarrow> Some ErrOnlyMountAccessType
                       | Some mountType \<Rightarrow>
                           (if FsType mountType \<noteq> [] then None else None)))))"

text \<open>The \<open>range\<close> loop of \<open>validateVolumeCapabilities\<close>: the first error ends it.\<close>

fun validateVolumeCapabilities_loop :: "ControllerServer \<Rightarrow> VolumeCapability option list \<Rightarrow> error option" where
  "validateVolumeCapabilities_loop cs [] = None"
| "validateVolumeCapabilities_loop cs (c # caps) =
     (case validateVolumeCapability cs c of
        Some err \<Rightarrow> Some err
      | None \<Rightarrow> validateVolumeCapabilities_loop cs caps)"

definition validateVolumeCapabilities :: "ControllerServer \<Rightarrow> VolumeCapability option list \<Rightarrow> error option" where
  "validateVolumeCapabilities cs caps =
     (if length caps = 0 then Some ErrCapabilitiesMustBeProvided
      else validateVolumeCapabilities_loop cs caps)"

subsection \<open>Building a volume from the parameters\<close>

text \<open>
  The \<open>range\<close> loop of \<open>newNFSVolume\<close> over the parameters, with the two local variables
  \<open>server\<close> and \<open>baseDir\<close> it assigns; \<open>lower\<close> is \<open>strings.ToLower\<close>.
\<close>

fun newNFSVolume_loop ::
  "(string \<Rightarrow> string) \<Rightarrow> (string \<times> string) list \<Rightarrow> string \<Rightarrow> string \<Rightarrow> error + string \<times> string" where
  "newNFSVolume_loop lower [] srv bd = Inr (srv, bd)"
| "newNFSVolume_loop lower ((k, v) # params) srv bd =
     (if lower k = paramServer then newNFSVolume_loop lower params v bd
      else if lower k = paramBaseDir then newNFSVolume_loop lower params srv v
      else Inl (ErrInvalidParameter k))"

definition newNFSVolume ::
  "(string \<Rightarrow> string) \<Rightarrow> string \<Rightarrow> (string \<times> string) list \<Rightarrow> error + nfsVolume" where
  "newNFSVolume lower nm params =
     (case newNFSVolume_loop lower params [] [] of
        Inl err \<Rightarrow> Inl err
      | Inr (srv, bd) \<Rightarrow>
          if srv = [] then Inl (ErrRequiredParameter paramServer)
          else if bd = [] then Inl (ErrRequiredParameter paramBaseDir)
          else
            let vol = \<lparr>id' = [], server = srv, baseDir = bd, subDir = nm\<rparr>
            in Inr (vol\<lparr>id' := getVolumeIdFromNfsVol vol\<rparr>))"

subsection \<open>Paths\<close>

definition getInternalMountPath :: "ControllerServer \<Rightarrow> nfsVolume \<Rightarrow> string" where
  "getInternalMountPath cs vol = filepath_Join [workingMountDir cs, subDir vol]"

definition getInternalVolumePath :: "ControllerServer \<Rightarrow> nfsVolume \<Rightarrow> string" where
  "getInternalVolumePath cs vol = filepath_Join [getInternalMountPath cs vol, subDir vol]"

definition getVolumeSharePath :: "ControllerServer \<Rightarrow> nfsVolume \<Rightarrow> string" where
  "getVolumeSharePath cs vol = filepath_Join [''/'', baseDir vol, subDir vol]"

definition nfsVolToCSI :: "ControllerServer \<Rightarrow> nfsVolume \<Rightarrow> int64 \<Rightarrow> csi_Volume" where
  "nfsVolToCSI cs vol reqBytes =
     \<lparr>CapacityBytes = reqBytes,
      csi_Volume.VolumeId = id' vol,
      csi_Volume.VolumeContext =
        [attrServer \<mapsto> server vol, attrShare \<mapsto> getVolumeSharePath cs vol]\<rparr>"

subsection \<open>Mounting and unmounting the share\<close>

definition internalMount ::
  "'w platform \<Rightarrow> ControllerServer \<Rightarrow> nfsVolume \<Rightarrow> 'w \<Rightarrow> string option \<times> 'w" where
  "internalMount pf cs vol w =
     (let sharePath = filepath_Join [''/'' @ baseDir vol];
          targetPath = getInternalMountPath cs vol
      in NodePublishVolume pf
           \<lparr>NodePublishVolumeRequest.TargetPath = targetPath,
            NodePublishVolumeRequest.VolumeContext =
              [''server'' \<mapsto> server vol, ''share'' \<mapsto> sharePath]\<rparr> w)"

definition internalUnmount ::
  "'w platform \<Rightarrow> ControllerServer \<Rightarrow> nfsVolume \<Rightarrow> 'w \<Rightarrow> string option \<times> 'w" where
  "internalUnmount pf cs vol w =
     NodeUnpublishVolume pf
       \<lparr>NodeUnpublishVolumeRequest.TargetPath = getInternalMountPath cs vol\<rparr> w"

subsection \<open>CreateVolume and DeleteVolume\<close>

text \<open>
  The deferred \<open>internalUnmount\<close> runs on every return after a successful mount; its
  error is only logged, and the values already returned are not changed by it.
\<close>

definition CreateVolume ::
  "'w platform \<Rightarrow> ControllerServer \<Rightarrow> CreateVolumeRequest \<Rightarrow> 'w
     \<Rightarrow> (status + CreateVolumeResponse) \<times> 'w" where
  "CreateVolume pf cs req w =
     (let nm = Name req in
      if length nm = 0 then (Inl (Status InvalidArgument MsgNameMustBeProvided), w)
      else
        case validateVolumeCapabilities cs (VolumeCapabilities req) of
          Some err \<Rightarrow> (Inl (Status InvalidArgument (MsgError err)), w)
        | None \<Rightarrow>
            (case newNFSVolume (strings_ToLower pf) nm (Parameters req) of
               Inl err \<Rightarrow> (Inl (Status InvalidArgument (MsgError err)), w)
             | Inr nfsVol \<Rightarrow>
                 (case internalMount pf cs nfsVol w of
                    (Some err, w1) \<Rightarrow> (Inl (Status Internal (MsgFailedToMount err)), w1)
                  | (None, w1) \<Rightarrow>
                      let internalVolumePath = getInternalVolumePath cs nfsVol;
                          (res, w2) =
                            (case os_Mkdir pf internalVolumePath 493 w1 of
                               (Some err, w2) \<Rightarrow>
                                 (Inl (Status Internal (MsgFailedToMakeSubdirectory err)), w2)
                             | (None, w2) \<Rightarrow>
                                 (Inr \<lparr>Volume = nfsVolToCSI cs nfsVol
                                         (GetRequiredBytes (CapacityRange req))\<rparr>, w2));
                          (unmountErr, w3) = internalUnmount pf cs nfsVol w2
                      in (res, w3))))"

definition DeleteVolume ::
  "'w platform \<Rightarrow> ControllerServer \<Rightarrow> DeleteVolumeRequest \<Rightarrow> 'w
     \<Rightarrow> (status + DeleteVolumeResponse) \<times> 'w" where
  "DeleteVolume pf cs req w =
     (let volumeId = DeleteVolumeRequest.VolumeId req in
      if volumeId = [] then (Inl (Status InvalidArgument MsgVolumeIdEmpty), w)
      else
        case getNfsVolFromId volumeId of
          Inl err \<Rightarrow> (Inr DeleteVolumeResponse, w)
        | Inr nfsVol \<Rightarrow>
            (case internalMount pf cs nfsVol w of
               (Some err, w1) \<Rightarrow> (Inl (Status Internal (MsgFailedToMount err)), w1)
             | (None, w1) \<Rightarrow>
                 let internalVolumePath = getInternalVolumePath cs nfsVol;
                     (res, w2) =
                       (case os_RemoveAll pf internalVolumePath w1 of
                          (Some err, w2) \<Rightarrow>
                            (Inl (Status Internal (MsgFailedToDeleteSubdirectory err)), w2)
                        | (None, w2) \<Rightarrow> (Inr DeleteVolumeResponse, w2));
                     (unmountErr, w3) = internalUnmount pf cs nfsVol w2
                 in (res, w3)))"

section \<open>A platform for concrete runs\<close>

text \<open>
  \<open>strings.ToLower\<close> on a string of ASCII bytes maps \<open>A\<close> to \<open>Z\<close> to \<open>a\<close> to \<open>z\<close> and
  keeps every other byte; \<open>ascii_ToLower\<close> is used on such strings only.
\<close>

definition ascii_ToLower :: "string \<Rightarrow> string" where
  "ascii_ToLower s =
     map (\<lambda>c. let n = (of_char c :: nat) in if 65 \<le> n \<and> n \<le> 90 then char_of (n + 32) else c) s"

text \<open>
  On the recording platform every outside call succeeds and is appended to the world,
  which is the list of the calls made so far.
\<close>

datatype call =
    CallNodePublishVolume NodePublishVolumeRequest
  | CallNodeUnpublishVolume NodeUnpublishVolumeRequest
  | CallMkdir string nat
  | CallRemoveAll string

definition recording :: "call list platform" where
  "recording =
     \<lparr>strings_ToLower = ascii_ToLower,
      NodePublishVolume = (\<lambda>req w. (None, w @ [CallNodePublishVolume req])),
      NodeUnpublishVolume = (\<lambda>req w. (None, w @ [CallNodeUnpublishVolume req])),
      os_Mkdir = (\<lambda>path perm w. (None, w @ [CallMkdir path perm])),
      os_RemoveAll = (\<lambda>path w. (None, w @ [CallRemoveAll path]))\<rparr>"

section \<open>Shapes of paths used in the statements\<close>

text \<open>
  A plain segment is a name that \<open>filepath.Clean\<close> keeps as one path element: not empty,
  without separator, and neither \<open>.\<close> nor \<open>..\<close>. \<open>abs_path\<close> writes the absolute path
  whose elements are the given segments.
\<close>

definition plain_segment :: "string \<Rightarrow> bool" where
  "plain_segment e \<longleftrightarrow> e \<noteq> [] \<and> CHR ''/'' \<notin> set e \<and> e \<noteq> ''.'' \<and> e \<noteq> ''..''"

fun abs_path :: "string list \<Rightarrow> string" where
  "abs_path [] = []"
| "abs_path (e # es) = ''/'' @ e @ abs_path es"

section \<open>Facts about splitting and joining\<close>

lemma strings_IndexByte_None: "strings_IndexByte s c = None \<longleftrightarrow> c \<notin> set s"
  by (induction s) auto

lemma strings_Split_Nil: "strings_Split [] sep = [[]]"
  by (subst strings_Split.simps) simp

lemma strings_Split_no_sep: "sep \<notin> set s \<Longrightarrow> strings_Split s sep = [s]"
  using strings_IndexByte_None [of s sep] by (subst strings_Split.simps) simp

lemma strings_IndexByte_append:
  "sep \<notin> set a \<Longrightarrow> strings_IndexByte (a @ sep # r) sep = Some (length a)"
  by (induction a) auto

lemma strings_Split_append:
  "sep \<notin> set a \<Longrightarrow> strings_Split (a @ sep # r) sep = a # strings_Split r sep"
  by (subst strings_Split.simps) (simp add: strings_IndexByte_append)

lemma getVolumeIdFromNfsVol_eq:
  "getVolumeIdFromNfsVol vol = server vol @ ''/'' @ baseDir vol @ ''/'' @ subDir vol"
  by (simp add: getVolumeIdFromNfsVol_def totalIDElements_def idServer_def idBaseDir_def
      idSubDir_def numeral_3_eq_3)

lemma strings_Split_not_Nil: "strings_Split s sep \<noteq> []"
  by (subst strings_Split.simps) (simp split: option.split)

lemma strings_Split_Cons_sep: "strings_Split (sep # s) sep = [] # strings_Split s sep"
  by (subst strings_Split.simps) simp

lemma strings_Split_Cons_other:
  "c \<noteq> sep \<Longrightarrow>
     strings_Split (c # s) sep = (c # hd (strings_Split s sep)) # tl (strings_Split s sep)"
  by (subst strings_Split.simps, subst (2 3) strings_Split.simps) (simp split: option.split)

lemma length_strings_Split: "length (strings_Split s sep) = Suc (count_list s sep)"
proof (induction s)
  case Nil
  show ?case by (simp add: strings_Split_Nil)
next
  case (Cons c s)
  show ?case
  proof (cases "c = sep")
    case True
    with Cons show ?thesis by (simp add: strings_Split_Cons_sep)
  next
    case False
    have "length (tl (strings_Split s sep)) = count_list s sep"
      using Cons by simp
    with False show ?thesis by (simp add: strings_Split_Cons_other)
  qed
qed

lemma strings_Join_Cons:
  "ys \<noteq> [] \<Longrightarrow> strings_Join (x # ys) sep = x @ sep @ strings_Join ys sep"
  by (cases ys) simp_all

lemma strings_Join_Split: "strings_Join (strings_Split s sep) [sep] = s"
proof (induction s)
  case Nil
  show ?case by (simp add: strings_Split_Nil)
next
  case (Cons c s)
  show ?case
  proof (cases "c = sep")
    case True
    with Cons show ?thesis
      by (simp add: strings_Split_Cons_sep strings_Join_Cons strings_Split_not_Nil)
  next
    case False
    obtain t ts where ts: "strings_Split s sep = t # ts"
      using strings_Split_not_Nil [of s sep] by (cases "strings_Split s sep") auto
    with Cons False show ?thesis
      by (cases ts) (simp_all add: strings_Split_Cons_other)
  qed
qed

lemma getNfsVolFromId_three:
  "strings_Split i CHR ''/'' = [a, b, c] \<Longrightarrow>
     getNfsVolFromId i = Inr \<lparr>id' = i, server = a, baseDir = b, subDir = c\<rparr>"
  by (simp add: getNfsVolFromId_def totalIDElements_def idServer_def idBaseDir_def idSubDir_def)

lemma strings_Split_three:
  assumes "CHR ''/'' \<notin> set s" "CHR ''/'' \<notin> set b" "CHR ''/'' \<notin> set d"
  shows "strings_Split (s @ ''/'' @ b @ ''/'' @ d) CHR ''/'' = [s, b, d]"
  using assms by (simp add: strings_Split_append strings_Split_no_sep)

section \<open>The identifier codec\<close>

text \<open>
  Claim C1. For every server, base directory and sub-directory that are non-empty and
  hold no \<open>/\<close>, decoding the identifier that \<open>getVolumeIdFromNfsVol\<close> builds from them
  succeeds and gives back the same three fields (whatever the \<open>id\<close> field of the encoded
  volume was); the decoded volume carries the identifier it was decoded from.
\<close>

theorem C1_decode_encode_roundtrip:
  assumes "s \<noteq> []" "b \<noteq> []" "d \<noteq> []"
    and "CHR ''/'' \<notin> set s" "CHR ''/'' \<notin> set b" "CHR ''/'' \<notin> set d"
  shows "getNfsVolFromId (getVolumeIdFromNfsVol \<lparr>id' = i, server = s, baseDir = b, subDir = d\<rparr>)
           = Inr \<lparr>id' = s @ ''/'' @ b @ ''/'' @ d, server = s, baseDir = b, subDir = d\<rparr>"
proof -
  have "strings_Split (s @ ''/'' @ b @ ''/'' @ d) CHR ''/'' = [s, b, d]"
    using assms(4-6) by (rule strings_Split_three)
  then have "getNfsVolFromId (s @ ''/'' @ b @ ''/'' @ d)
      = Inr \<lparr>id' = s @ ''/'' @ b @ ''/'' @ d, server = s, baseDir = b, subDir = d\<rparr>"
    by (rule getNfsVolFromId_three)
  then show ?thesis
    by (simp add: getVolumeIdFromNfsVol_eq)
qed

theorem C1_decode_encode_roundtrip_witness:
  "getNfsVolFromId (getVolumeIdFromNfsVol
      \<lparr>id' = [], server = ''test-server'', baseDir = ''test-base-dir'', subDir = ''test-csi''\<rparr>)
     = Inr \<lparr>id' = ''test-server/test-base-dir/test-csi'', server = ''test-server'',
            baseDir = ''test-base-dir'', subDir = ''test-csi''\<rparr>"
  using C1_decode_encode_roundtrip [of "''test-server''" "''test-base-dir''" "''test-csi''" "[]"] by simp

lemma getNfsVolFromId_isl:
  "isl (getNfsVolFromId s) \<longleftrightarrow> length (strings_Split s CHR ''/'') \<noteq> 3"
  by (simp add: getNfsVolFromId_def totalIDElements_def Let_def)

lemma getNfsVolFromId_Inr:
  assumes "getNfsVolFromId s = Inr v"
  shows "id' v = s" and "strings_Split s CHR ''/'' = [server v, baseDir v, subDir v]"
proof -
  from assms have len: "length (strings_Split s CHR ''/'') = 3"
    by (simp add: getNfsVolFromId_def totalIDElements_def Let_def split: if_splits)
  then obtain a b c where abc: "strings_Split s CHR ''/'' = [a, b, c]"
    by (auto simp: length_Suc_conv numeral_3_eq_3)
  with assms have "v = \<lparr>id' = s, server = a, baseDir = b, subDir = c\<rparr>"
    by (simp add: getNfsVolFromId_three)
  with abc show "id' v = s" and "strings_Split s CHR ''/'' = [server v, baseDir v, subDir v]"
    by simp_all
qed

lemma newNFSVolume_Inr_id:
  "newNFSVolume lower nm params = Inr v \<Longrightarrow> id' v = getVolumeIdFromNfsVol v"
  by (auto simp: newNFSVolume_def getVolumeIdFromNfsVol_eq Let_def
      split: sum.splits prod.splits if_splits)

text \<open>
  Claim C2, as stated, fails: \<open>getNfsVolFromId\<close> counts the tokens and never looks
  whether one of them is empty. The identifier \<open>a//b\<close> splits into the three tokens
  \<open>a\<close>, the empty string and \<open>b\<close>, and is decoded without error into a volume whose
  base directory is empty.
\<close>

theorem C2_decode_counterexample:
  "strings_Split ''a//b'' CHR ''/'' = [''a'', [], ''b''] \<and>
   getNfsVolFromId ''a//b'' = Inr \<lparr>id' = ''a//b'', server = ''a'', baseDir = [], subDir = ''b''\<rparr>"
proof -
  have "strings_Split ''a//b'' CHR ''/'' = [''a'', [], ''b'']"
    by (simp add: strings_Split_Cons_sep strings_Split_Cons_other strings_Split_Nil)
  then show ?thesis
    by (simp add: getNfsVolFromId_three)
qed

text \<open>
  Claim C2, amended. Decoding returns an error exactly when splitting the identifier on
  \<open>/\<close> does not yield three tokens, that is, exactly when the identifier does not hold
  two \<open>/\<close> characters; no token is required to be non-empty. The empty identifier
  fails because it splits into one (empty) token.
\<close>

theorem C2_decode_rejects_by_token_count:
  "(isl (getNfsVolFromId s) \<longleftrightarrow> length (strings_Split s CHR ''/'') \<noteq> 3) \<and>
   (isl (getNfsVolFromId s) \<longleftrightarrow> count_list s CHR ''/'' \<noteq> 2) \<and>
   getNfsVolFromId [] = Inl (ErrUnexpectedFormat [] 1)"
proof -
  have "getNfsVolFromId [] = Inl (ErrUnexpectedFormat [] 1)"
    by (simp add: getNfsVolFromId_def totalIDElements_def strings_Split_Nil)
  moreover have "length (strings_Split s CHR ''/'') \<noteq> 3 \<longleftrightarrow> count_list s CHR ''/'' \<noteq> 2"
    by (simp add: length_strings_Split)
  ultimately show ?thesis
    by (simp add: getNfsVolFromId_isl)
qed

theorem C2_decode_rejects_by_token_count_witness:
  "isl (getNfsVolFromId ''s/b/vol1/extra'') \<and> isl (getNfsVolFromId ''s/b'') \<and>
   \<not> isl (getNfsVolFromId ''s/b/vol1'') \<and> \<not> isl (getNfsVolFromId ''a//b'')"
  using C2_decode_rejects_by_token_count [of "''s/b/vol1/extra''", THEN conjunct2, THEN conjunct1]
    C2_decode_rejects_by_token_count [of "''s/b''", THEN conjunct2, THEN conjunct1]
    C2_decode_rejects_by_token_count [of "''s/b/vol1''", THEN conjunct2, THEN conjunct1]
    C2_decode_rejects_by_token_count [of "''a//b''", THEN conjunct2, THEN conjunct1]
  by simp

text \<open>
  Claim C8. Every volume that \<open>newNFSVolume\<close> builds and every volume that
  \<open>getNfsVolFromId\<close> recovers has an \<open>id\<close> equal to its server, base directory and
  sub-directory joined with \<open>/\<close> in that order, which is what \<open>getVolumeIdFromNfsVol\<close>
  computes; and encoding a decoded volume gives back the decoded string.
\<close>

theorem C8_id_is_join_of_fields:
  "(newNFSVolume lower nm params = Inr v \<longrightarrow>
      id' v = getVolumeIdFromNfsVol v \<and>
      id' v = server v @ ''/'' @ baseDir v @ ''/'' @ subDir v) \<and>
   (getNfsVolFromId s = Inr v \<longrightarrow>
      getVolumeIdFromNfsVol v = s \<and>
      id' v = getVolumeIdFromNfsVol v \<and>
      id' v = server v @ ''/'' @ baseDir v @ ''/'' @ subDir v)"
proof (intro conjI impI)
  assume built: "newNFSVolume lower nm params = Inr v"
  then show "id' v = getVolumeIdFromNfsVol v"
    by (rule newNFSVolume_Inr_id)
  then show "id' v = server v @ ''/'' @ baseDir v @ ''/'' @ subDir v"
    by (simp add: getVolumeIdFromNfsVol_eq)
next
  assume decoded: "getNfsVolFromId s = Inr v"
  have "strings_Join (strings_Split s CHR ''/'') ''/'' = s"
    by (rule strings_Join_Split)
  then have join: "server v @ ''/'' @ baseDir v @ ''/'' @ subDir v = s"
    by (simp add: getNfsVolFromId_Inr(2) [OF decoded])
  then show enc: "getVolumeIdFromNfsVol v = s"
    by (simp add: getVolumeIdFromNfsVol_eq)
  show "id' v = getVolumeIdFromNfsVol v"
    using enc getNfsVolFromId_Inr(1) [OF decoded] by simp
  show "id' v = server v @ ''/'' @ baseDir v @ ''/'' @ subDir v"
    using join getNfsVolFromId_Inr(1) [OF decoded] by simp
qed

theorem C8_id_is_join_of_fields_witness:
  "id' \<lparr>id' = ''a//b'', server = ''a'', baseDir = [], subDir = ''b''\<rparr>
     = getVolumeIdFromNfsVol \<lparr>id' = ''a//b'', server = ''a'', baseDir = [], subDir = ''b''\<rparr> \<and>
   getVolumeIdFromNfsVol \<lparr>id' = ''x/b/vol'', server = ''x'', baseDir = ''b'', subDir = ''vol''\<rparr>
     = ''x/b/vol''"
proof -
  have dec: "getNfsVolFromId ''a//b'' = Inr \<lparr>id' = ''a//b'', server = ''a'', baseDir = [], subDir = ''b''\<rparr>"
    by (simp add: getNfsVolFromId_three strings_Split_Cons_sep strings_Split_Cons_other strings_Split_Nil)
  have new: "newNFSVolume ascii_ToLower ''vol'' [(''Server'', ''x''), (''BASE-DIR'', ''b'')]
      = Inr \<lparr>id' = ''x/b/vol'', server = ''x'', baseDir = ''b'', subDir = ''vol''\<rparr>"
    by code_simp
  show ?thesis
    using C8_id_is_join_of_fields [of ascii_ToLower "''vol''" "[(''Server'', ''x''), (''BASE-DIR'', ''b'')]"
        "\<lparr>id' = ''x/b/vol'', server = ''x'', baseDir = ''b'', subDir = ''vol''\<rparr>" "''a//b''"]
      C8_id_is_join_of_fields [of ascii_ToLower "''vol''" "[]"
        "\<lparr>id' = ''a//b'', server = ''a'', baseDir = [], subDir = ''b''\<rparr>" "''a//b''"]
      dec new
    by simp
qed

section \<open>Capability validation\<close>

lemma validateVolumeCapability_mount:
  "AccessType c = Some (VolumeCapability_Mount (Some m)) \<Longrightarrow>
     validateVolumeCapability cs (Some c) =
       (case AccessMode c of
          None \<Rightarrow> Some ErrAccessModeNotSet
        | Some am \<Rightarrow>
            if cap_index (Driver cs) (Mode am) then None
            else Some (ErrAccessModeNotSupported (Mode am)))"
  by (simp add: validateVolumeCapability_def GetAccessMode_def GetAccessType_def GetMount_def
      split: option.splits)

lemma cap_index_NewNFSdriver:
  "cap_index NewNFSdriver m \<longleftrightarrow> m \<noteq> UNKNOWN"
  by (cases m) (simp_all add: cap_index_def NewNFSdriver_def)

lemma validateVolumeCapability_fails_iff:
  assumes "\<forall>m. cap (Driver cs) m \<noteq> Some False"
  shows "validateVolumeCapability cs c \<noteq> None \<longleftrightarrow>
     c = None \<or>
     (\<exists>vc. c = Some vc \<and>
        (AccessMode vc = None \<or>
         (\<exists>am. AccessMode vc = Some am \<and> Mode am \<notin> dom (cap (Driver cs))) \<or>
         AccessType vc = None \<or>
         GetMount vc = None))"
proof -
  have idx: "cap_index (Driver cs) m \<longleftrightarrow> m \<in> dom (cap (Driver cs))" for m
  proof (cases "cap (Driver cs) m")
    case None
    then show ?thesis by (simp add: cap_index_def dom_def)
  next
    case (Some b)
    with assms have "b" by (cases b) auto
    with Some show ?thesis by (auto simp: cap_index_def)
  qed
  show ?thesis
    by (cases c)
      (auto simp: validateVolumeCapability_def GetAccessMode_def GetAccessType_def idx
        split: option.splits)
qed

lemma validateVolumeCapabilities_loop_fails_iff:
  "validateVolumeCapabilities_loop cs caps \<noteq> None \<longleftrightarrow>
     (\<exists>c\<in>set caps. validateVolumeCapability cs c \<noteq> None)"
  by (induction caps) (auto split: option.splits)

lemma validateVolumeCapabilities_fails_iff:
  "validateVolumeCapabilities cs caps \<noteq> None \<longleftrightarrow>
     caps = [] \<or> (\<exists>c\<in>set caps. validateVolumeCapability cs c \<noteq> None)"
proof (cases caps)
  case Nil
  then show ?thesis by (simp add: validateVolumeCapabilities_def)
next
  case (Cons c caps')
  have "validateVolumeCapabilities cs caps = validateVolumeCapabilities_loop cs caps"
    using Cons by (simp add: validateVolumeCapabilities_def)
  with Cons show ?thesis
    using validateVolumeCapabilities_loop_fails_iff [of cs caps] by simp
qed

lemma CreateVolume_invalid_capabilities:
  assumes "validateVolumeCapabilities cs (VolumeCapabilities req) \<noteq> None"
  shows "status_Code (fst (CreateVolume pf cs req w)) = InvalidArgument"
    and "snd (CreateVolume pf cs req w) = w"
  using assms by (auto simp: CreateVolume_def Let_def split: option.splits)

lemma AddVolumeCapabilityAccessModes_cap:
  "cap (AddVolumeCapabilityAccessModes n vc) m =
     (if m \<in> set vc then Some True else cap n m)"
  by (induction n vc rule: AddVolumeCapabilityAccessModes.induct) auto

lemma NewNFSdriver_no_False: "cap NewNFSdriver m \<noteq> Some False"
  by (simp add: NewNFSdriver_def AddVolumeCapabilityAccessModes_cap)

lemma dom_cap_NewNFSdriver: "m \<in> dom (cap NewNFSdriver) \<longleftrightarrow> m \<noteq> UNKNOWN"
  by (cases m) (simp_all add: NewNFSdriver_def)

text \<open>
  Claim C10. A capability whose access type is a mount descriptor is judged on its access
  mode alone: the file system type and the mount flags it carries do not appear in the
  result, so two such capabilities that differ only there get the same answer, and the
  capability is accepted as soon as its access mode is set and enabled.
\<close>

theorem C10_fstype_never_rejected:
  "validateVolumeCapability cs
      (Some \<lparr>AccessType = Some (VolumeCapability_Mount (Some \<lparr>FsType = fs, MountFlags = flags\<rparr>)),
             AccessMode = mode\<rparr>) =
     (case mode of
        None \<Rightarrow> Some ErrAccessModeNotSet
      | Some am \<Rightarrow>
          if cap_index (Driver cs) (Mode am) then None
          else Some (ErrAccessModeNotSupported (Mode am))) \<and>
   validateVolumeCapability cs
      (Some \<lparr>AccessType = Some (VolumeCapability_Mount (Some \<lparr>FsType = fs, MountFlags = flags\<rparr>)),
             AccessMode = mode\<rparr>) =
   validateVolumeCapability cs
      (Some \<lparr>AccessType = Some (VolumeCapability_Mount (Some \<lparr>FsType = fs', MountFlags = flags'\<rparr>)),
             AccessMode = mode\<rparr>)"
  by (simp add: validateVolumeCapability_mount)

theorem C10_fstype_never_rejected_witness:
  "validateVolumeCapability (NewControllerServer NewNFSdriver internalMountDir)
      (Some \<lparr>AccessType = Some (VolumeCapability_Mount (Some \<lparr>FsType = ''ext4'', MountFlags = [''ro'']\<rparr>)),
             AccessMode = Some \<lparr>Mode = MULTI_NODE_MULTI_WRITER\<rparr>\<rparr>) = None"
  using C10_fstype_never_rejected [of "NewControllerServer NewNFSdriver internalMountDir"
      "''ext4''" "[''ro'']" "Some \<lparr>Mode = MULTI_NODE_MULTI_WRITER\<rparr>"]
  by (simp add: NewControllerServer_def cap_index_NewNFSdriver)

text \<open>
  Claim C6. On a driver whose \<open>cap\<close> map holds no \<open>false\<close> entry (the map is only ever
  written by \<open>AddVolumeCapabilityAccessModes\<close>, which stores \<open>true\<close>), validation fails
  exactly when the list is empty or one of its elements is \<open>nil\<close>, has no access mode,
  has an access mode that is not a key of \<open>cap\<close>, has no access type, or has an access
  type from which \<open>GetMount\<close> gets no mount descriptor. Validation reads the driver and
  the list only. When it fails, \<open>CreateVolume\<close> answers \<open>InvalidArgument\<close> and returns the
  world as it was received.
\<close>

theorem C6_capability_validation:
  assumes "\<forall>m. cap (Driver cs) m \<noteq> Some False"
  shows "(validateVolumeCapabilities cs caps \<noteq> None \<longleftrightarrow>
            caps = [] \<or>
            (\<exists>c\<in>set caps.
               c = None \<or>
               (\<exists>vc. c = Some vc \<and>
                  (AccessMode vc = None \<or>
                   (\<exists>am. AccessMode vc = Some am \<and> Mode am \<notin> dom (cap (Driver cs))) \<or>
                   AccessType vc = None \<or>
                   GetMount vc = None)))) \<and>
         (validateVolumeCapabilities cs (VolumeCapabilities req) \<noteq> None \<longrightarrow>
            status_Code (fst (CreateVolume pf cs req w)) = InvalidArgument \<and>
            snd (CreateVolume pf cs req w) = w)"
proof (rule conjI)
  show "validateVolumeCapabilities cs caps \<noteq> None \<longleftrightarrow>
          caps = [] \<or>
          (\<exists>c\<in>set caps.
             c = None \<or>
             (\<exists>vc. c = Some vc \<and>
                (AccessMode vc = None \<or>
                 (\<exists>am. AccessMode vc = Some am \<and> Mode am \<notin> dom (cap (Driver cs))) \<or>
                 AccessType vc = None \<or>
                 GetMount vc = None)))"
    unfolding validateVolumeCapabilities_fails_iff
      validateVolumeCapability_fails_iff [OF assms] ..
next
  show "validateVolumeCapabilities cs (VolumeCapabilities req) \<noteq> None \<longrightarrow>
          status_Code (fst (CreateVolume pf cs req w)) = InvalidArgument \<and>
          snd (CreateVolume pf cs req w) = w"
    by (simp add: CreateVolume_invalid_capabilities)
qed

theorem C6_capability_validation_witness:
  "validateVolumeCapabilities (NewControllerServer NewNFSdriver internalMountDir) [] \<noteq> None \<and>
   validateVolumeCapabilities (NewControllerServer NewNFSdriver internalMountDir)
     [Some \<lparr>AccessType = Some (VolumeCapability_Block (Some VolumeCapability_BlockVolume)),
            AccessMode = Some \<lparr>Mode = MULTI_NODE_MULTI_WRITER\<rparr>\<rparr>] \<noteq> None \<and>
   validateVolumeCapabilities (NewControllerServer NewNFSdriver internalMountDir)
     [Some \<lparr>AccessType = Some (VolumeCapability_Mount (Some \<lparr>FsType = [], MountFlags = []\<rparr>)),
            AccessMode = Some \<lparr>Mode = MULTI_NODE_MULTI_WRITER\<rparr>\<rparr>] = None \<and>
   status_Code (fst (CreateVolume recording (NewControllerServer NewNFSdriver internalMountDir)
     \<lparr>Name = ''test-csi'', CapacityRange = None, VolumeCapabilities = [],
      Parameters = [(''server'', ''test-server''), (''base-dir'', ''test-base-dir'')]\<rparr> []))
     = InvalidArgument \<and>
   snd (CreateVolume recording (NewControllerServer NewNFSdriver internalMountDir)
     \<lparr>Name = ''test-csi'', CapacityRange = None, VolumeCapabilities = [],
      Parameters = [(''server'', ''test-server''), (''base-dir'', ''test-base-dir'')]\<rparr> []) = []"
proof -
  have ok: "\<forall>m. cap (Driver (NewControllerServer NewNFSdriver internalMountDir)) m \<noteq> Some False"
    by (simp add: NewControllerServer_def NewNFSdriver_no_False)
  have none: "validateVolumeCapabilities (NewControllerServer NewNFSdriver internalMountDir) [] \<noteq> None"
    by (simp add: validateVolumeCapabilities_def)
  show ?thesis
    using C6_capability_validation [OF ok, THEN conjunct1, of "[]"]
      C6_capability_validation [OF ok, THEN conjunct1,
        of "[Some \<lparr>AccessType = Some (VolumeCapability_Block (Some VolumeCapability_BlockVolume)),
            AccessMode = Some \<lparr>Mode = MULTI_NODE_MULTI_WRITER\<rparr>\<rparr>]"]
      C6_capability_validation [OF ok, THEN conjunct1,
        of "[Some \<lparr>AccessType = Some (VolumeCapability_Mount (Some \<lparr>FsType = [], MountFlags = []\<rparr>)),
            AccessMode = Some \<lparr>Mode = MULTI_NODE_MULTI_WRITER\<rparr>\<rparr>]"]
      C6_capability_validation [OF ok, THEN conjunct2,
        of "\<lparr>Name = ''test-csi'', CapacityRange = None, VolumeCapabilities = [],
      Parameters = [(''server'', ''test-server''), (''base-dir'', ''test-base-dir'')]\<rparr>" recording "[]"]
      none
    by (simp add: GetMount_def GetAccessType_def NewControllerServer_def dom_cap_NewNFSdriver)
qed

section \<open>Early returns of the handlers\<close>

lemma DeleteVolume_empty:
  "DeleteVolumeRequest.VolumeId req = [] \<Longrightarrow>
     DeleteVolume pf cs req w = (Inl (Status InvalidArgument MsgVolumeIdEmpty), w)"
  by (simp add: DeleteVolume_def)

lemma DeleteVolume_malformed:
  "DeleteVolumeRequest.VolumeId req \<noteq> [] \<Longrightarrow>
   getNfsVolFromId (DeleteVolumeRequest.VolumeId req) = Inl err \<Longrightarrow>
     DeleteVolume pf cs req w = (Inr DeleteVolumeResponse, w)"
  by (simp add: DeleteVolume_def)

lemma DeleteVolume_code_nonempty:
  "DeleteVolumeRequest.VolumeId req \<noteq> [] \<Longrightarrow>
     status_Code (fst (DeleteVolume pf cs req w)) \<noteq> InvalidArgument"
  by (simp add: DeleteVolume_def Let_def split: sum.splits prod.splits option.splits)

text \<open>
  Claim C7. A \<open>CreateVolume\<close> request with the empty name is answered with
  \<open>InvalidArgument\<close>, and the world is returned as it was received: whatever the node
  server and the file system would do, none of them is called.
\<close>

theorem C7_empty_name:
  "Name req = [] \<Longrightarrow>
     CreateVolume pf cs req w = (Inl (Status InvalidArgument MsgNameMustBeProvided), w)"
  by (simp add: CreateVolume_def)

theorem C7_empty_name_witness:
  "CreateVolume recording (NewControllerServer NewNFSdriver internalMountDir)
     \<lparr>Name = [], CapacityRange = None,
      VolumeCapabilities =
        [Some \<lparr>AccessType = Some (VolumeCapability_Mount (Some \<lparr>FsType = [], MountFlags = []\<rparr>)),
               AccessMode = Some \<lparr>Mode = MULTI_NODE_MULTI_WRITER\<rparr>\<rparr>],
      Parameters = [(''server'', ''test-server''), (''base-dir'', ''test-base-dir'')]\<rparr> []
   = (Inl (Status InvalidArgument MsgNameMustBeProvided), [])"
  by (rule C7_empty_name) simp

text \<open>
  Claim C4. \<open>DeleteVolume\<close> answers \<open>InvalidArgument\<close> exactly when the identifier of the
  request is empty. For a non-empty identifier that \<open>getNfsVolFromId\<close> rejects it answers
  with the empty response and returns the world as it was received: nothing is mounted
  and nothing is removed, on any platform.
\<close>

theorem C4_delete_invalid_argument:
  "(status_Code (fst (DeleteVolume pf cs req w)) = InvalidArgument
      \<longleftrightarrow> DeleteVolumeRequest.VolumeId req = []) \<and>
   (DeleteVolumeRequest.VolumeId req \<noteq> [] \<and>
    isl (getNfsVolFromId (DeleteVolumeRequest.VolumeId req))
      \<longrightarrow> DeleteVolume pf cs req w = (Inr DeleteVolumeResponse, w))"
proof (intro conjI impI iffI)
  assume "status_Code (fst (DeleteVolume pf cs req w)) = InvalidArgument"
  then show "DeleteVolumeRequest.VolumeId req = []"
    using DeleteVolume_code_nonempty [of req pf cs w] by blast
next
  assume "DeleteVolumeRequest.VolumeId req = []"
  then show "status_Code (fst (DeleteVolume pf cs req w)) = InvalidArgument"
    by (simp add: DeleteVolume_empty)
next
  assume "DeleteVolumeRequest.VolumeId req \<noteq> [] \<and>
    isl (getNfsVolFromId (DeleteVolumeRequest.VolumeId req))"
  then show "DeleteVolume pf cs req w = (Inr DeleteVolumeResponse, w)"
    by (auto simp: isl_def dest: DeleteVolume_malformed)
qed

theorem C4_delete_invalid_argument_witness:
  "DeleteVolume recording (NewControllerServer NewNFSdriver internalMountDir)
     \<lparr>VolumeId = ''test-server/test-base-dir/test-csi/foo''\<rparr> [] = (Inr DeleteVolumeResponse, []) \<and>
   status_Code (fst (DeleteVolume recording (NewControllerServer NewNFSdriver internalMountDir)
     \<lparr>VolumeId = []\<rparr> [])) = InvalidArgument"
proof -
  have "isl (getNfsVolFromId ''test-server/test-base-dir/test-csi/foo'')"
    by (simp add: getNfsVolFromId_isl length_strings_Split)
  then show ?thesis
    using C4_delete_invalid_argument [of recording "NewControllerServer NewNFSdriver internalMountDir"
        "\<lparr>VolumeId = ''test-server/test-base-dir/test-csi/foo''\<rparr>" "[]"]
      C4_delete_invalid_argument [of recording "NewControllerServer NewNFSdriver internalMountDir"
        "\<lparr>VolumeId = []\<rparr>" "[]"]
    by simp
qed

section \<open>Parameters of a new volume\<close>

lemma newNFSVolume_loop_invalid:
  "\<exists>k\<in>fst ` set params. lower k \<noteq> paramServer \<and> lower k \<noteq> paramBaseDir \<Longrightarrow>
     \<exists>k\<in>fst ` set params. lower k \<noteq> paramServer \<and> lower k \<noteq> paramBaseDir \<and>
        newNFSVolume_loop lower params srv bd = Inl (ErrInvalidParameter k)"
proof (induction lower params srv bd rule: newNFSVolume_loop.induct)
  case (1 lower srv bd)
  then show ?case by simp
next
  case (2 lower k v params srv bd)
  show ?case
  proof (cases "lower k = paramServer \<or> lower k = paramBaseDir")
    case False
    then show ?thesis by simp
  next
    case True
    with "2.prems" have
      rest: "\<exists>k\<in>fst ` set params. lower k \<noteq> paramServer \<and> lower k \<noteq> paramBaseDir"
      by auto
    show ?thesis
    proof (cases "lower k = paramServer")
      case srv: True
      from "2.IH"(1) [OF srv rest] srv show ?thesis by auto
    next
      case nosrv: False
      with True have bdk: "lower k = paramBaseDir" by simp
      from "2.IH"(2) [OF nosrv bdk rest] nosrv bdk show ?thesis by auto
    qed
  qed
qed

lemma newNFSVolume_loop_valid:
  assumes "\<forall>k\<in>fst ` set params. lower k = paramServer \<or> lower k = paramBaseDir"
  shows "\<exists>srv' bd'. newNFSVolume_loop lower params srv bd = Inr (srv', bd') \<and>
           (srv' = srv \<and> (\<forall>k\<in>fst ` set params. lower k \<noteq> paramServer) \<or>
            (\<exists>k. (k, srv') \<in> set params \<and> lower k = paramServer)) \<and>
           (bd' = bd \<and> (\<forall>k\<in>fst ` set params. lower k \<noteq> paramBaseDir) \<or>
            (\<exists>k. (k, bd') \<in> set params \<and> lower k = paramBaseDir))"
  using assms
proof (induction lower params srv bd rule: newNFSVolume_loop.induct)
  case (1 lower srv bd)
  show ?case by simp
next
  case (2 lower k v params srv bd)
  have names: "paramServer \<noteq> paramBaseDir"
    by (simp add: paramServer_def paramBaseDir_def)
  from "2.prems" have rest: "\<forall>k\<in>fst ` set params. lower k = paramServer \<or> lower k = paramBaseDir"
    and head: "lower k = paramServer \<or> lower k = paramBaseDir"
    by auto
  show ?case
  proof (cases "lower k = paramServer")
    case True
    from "2.IH"(1) [OF True rest] obtain srv' bd' where
      run: "newNFSVolume_loop lower params v bd = Inr (srv', bd')"
      and s: "srv' = v \<and> (\<forall>k\<in>fst ` set params. lower k \<noteq> paramServer) \<or>
            (\<exists>k. (k, srv') \<in> set params \<and> lower k = paramServer)"
      and b: "bd' = bd \<and> (\<forall>k\<in>fst ` set params. lower k \<noteq> paramBaseDir) \<or>
            (\<exists>k. (k, bd') \<in> set params \<and> lower k = paramBaseDir)"
      by blast
    have "newNFSVolume_loop lower ((k, v) # params) srv bd = Inr (srv', bd')"
      using True run by simp
    moreover have "\<exists>k'. (k', srv') \<in> set ((k, v) # params) \<and> lower k' = paramServer"
      using s True by auto
    moreover have "bd' = bd \<and> (\<forall>k'\<in>fst ` set ((k, v) # params). lower k' \<noteq> paramBaseDir) \<or>
            (\<exists>k'. (k', bd') \<in> set ((k, v) # params) \<and> lower k' = paramBaseDir)"
      using b True names by auto
    ultimately show ?thesis by blast
  next
    case False
    with head have bdk: "lower k = paramBaseDir" by simp
    from "2.IH"(2) [OF False bdk rest] obtain srv' bd' where
      run: "newNFSVolume_loop lower params srv v = Inr (srv', bd')"
      and s: "srv' = srv \<and> (\<forall>k\<in>fst ` set params. lower k \<noteq> paramServer) \<or>
            (\<exists>k. (k, srv') \<in> set params \<and> lower k = paramServer)"
      and b: "bd' = v \<and> (\<forall>k\<in>fst ` set params. lower k \<noteq> paramBaseDir) \<or>
            (\<exists>k. (k, bd') \<in> set params \<and> lower k = paramBaseDir)"
      by blast
    have "newNFSVolume_loop lower ((k, v) # params) srv bd = Inr (srv', bd')"
      using False bdk run by simp
    moreover have "\<exists>k'. (k', bd') \<in> set ((k, v) # params) \<and> lower k' = paramBaseDir"
      using b bdk by auto
    moreover have "srv' = srv \<and> (\<forall>k'\<in>fst ` set ((k, v) # params). lower k' \<noteq> paramServer) \<or>
            (\<exists>k'. (k', srv') \<in> set ((k, v) # params) \<and> lower k' = paramServer)"
      using s False by auto
    ultimately show ?thesis by blast
  qed
qed

lemma newNFSVolume_invalid:
  assumes "\<exists>k\<in>fst ` set params. lower k \<noteq> paramServer \<and> lower k \<noteq> paramBaseDir"
  shows "\<exists>k\<in>fst ` set params. lower k \<noteq> paramServer \<and> lower k \<noteq> paramBaseDir \<and>
        newNFSVolume lower nm params = Inl (ErrInvalidParameter k)"
proof -
  from newNFSVolume_loop_invalid [OF assms, of "[]" "[]"] obtain k where
    "k \<in> fst ` set params" "lower k \<noteq> paramServer" "lower k \<noteq> paramBaseDir"
    "newNFSVolume_loop lower params [] [] = Inl (ErrInvalidParameter k)"
    by blast
  then show ?thesis
    by (auto simp: newNFSVolume_def)
qed

lemma newNFSVolume_no_server:
  assumes "\<forall>k\<in>fst ` set params. lower k \<noteq> paramServer"
  shows "isl (newNFSVolume lower nm params)"
    and "\<forall>k\<in>fst ` set params. lower k = paramBaseDir \<Longrightarrow>
           newNFSVolume lower nm params = Inl (ErrRequiredParameter paramServer)"
proof -
  show "isl (newNFSVolume lower nm params)"
  proof (cases "\<forall>k\<in>fst ` set params. lower k = paramServer \<or> lower k = paramBaseDir")
    case True
    from newNFSVolume_loop_valid [OF True, of "[]" "[]"] assms
    obtain bd' where "newNFSVolume_loop lower params [] [] = Inr ([], bd')"
      by force
    then show ?thesis by (simp add: newNFSVolume_def)
  next
    case False
    then have "\<exists>k\<in>fst ` set params. lower k \<noteq> paramServer \<and> lower k \<noteq> paramBaseDir"
      by blast
    from newNFSVolume_invalid [OF this, of nm] show ?thesis by auto
  qed
next
  assume "\<forall>k\<in>fst ` set params. lower k = paramBaseDir"
  then have "\<forall>k\<in>fst ` set params. lower k = paramServer \<or> lower k = paramBaseDir"
    by blast
  from newNFSVolume_loop_valid [OF this, of "[]" "[]"] assms
  obtain bd' where "newNFSVolume_loop lower params [] [] = Inr ([], bd')"
    by force
  then show "newNFSVolume lower nm params = Inl (ErrRequiredParameter paramServer)"
    by (simp add: newNFSVolume_def)
qed

lemma newNFSVolume_no_baseDir:
  assumes "\<forall>k\<in>fst ` set params. lower k \<noteq> paramBaseDir"
  shows "isl (newNFSVolume lower nm params)"
proof (cases "\<forall>k\<in>fst ` set params. lower k = paramServer \<or> lower k = paramBaseDir")
  case True
  from newNFSVolume_loop_valid [OF True, of "[]" "[]"] assms
  obtain srv' where "newNFSVolume_loop lower params [] [] = Inr (srv', [])"
    by force
  then show ?thesis by (simp add: newNFSVolume_def)
next
  case False
  then have "\<exists>k\<in>fst ` set params. lower k \<noteq> paramServer \<and> lower k \<noteq> paramBaseDir"
    by blast
  from newNFSVolume_invalid [OF this, of nm] show ?thesis by auto
qed

lemma newNFSVolume_both:
  assumes each: "\<forall>(k, v)\<in>set params. lower k = paramServer \<and> v = s \<or> lower k = paramBaseDir \<and> v = b"
    and srv: "\<exists>k\<in>fst ` set params. lower k = paramServer"
    and bd: "\<exists>k\<in>fst ` set params. lower k = paramBaseDir"
    and ne: "s \<noteq> []" "b \<noteq> []"
  shows "newNFSVolume lower nm params =
           Inr \<lparr>id' = s @ ''/'' @ b @ ''/'' @ nm, server = s, baseDir = b, subDir = nm\<rparr>"
proof -
  have names: "paramServer \<noteq> paramBaseDir"
    by (simp add: paramServer_def paramBaseDir_def)
  from each have "\<forall>k\<in>fst ` set params. lower k = paramServer \<or> lower k = paramBaseDir"
    by auto
  from newNFSVolume_loop_valid [OF this, of "[]" "[]"] srv bd
  obtain srv' bd' k1 k2 where run: "newNFSVolume_loop lower params [] [] = Inr (srv', bd')"
    and "(k1, srv') \<in> set params" "lower k1 = paramServer"
    and "(k2, bd') \<in> set params" "lower k2 = paramBaseDir"
    by blast
  with each names have "srv' = s" "bd' = b"
    by auto
  with run ne show ?thesis
    by (simp add: newNFSVolume_def getVolumeIdFromNfsVol_eq)
qed

lemma CreateVolume_invalid_parameters:
  assumes "isl (newNFSVolume (strings_ToLower pf) (Name req) (Parameters req))"
  shows "status_Code (fst (CreateVolume pf cs req w)) = InvalidArgument"
    and "snd (CreateVolume pf cs req w) = w"
  using assms by (auto simp: CreateVolume_def Let_def isl_def split: option.splits)

lemma ascii_ToLower_examples:
  "ascii_ToLower ''server'' = ''server''" "ascii_ToLower ''SERVER'' = ''server''"
  "ascii_ToLower ''Server'' = ''server''" "ascii_ToLower ''base-dir'' = ''base-dir''"
  "ascii_ToLower ''Base-Dir'' = ''base-dir''" "ascii_ToLower ''unknown-parameter'' = ''unknown-parameter''"
  by code_simp+

text \<open>
  Claim C5. \<open>newNFSVolume\<close> compares the lower-cased key of every parameter with the two
  names \<open>server\<close> and \<open>base-dir\<close>. If some key is neither, it fails with the "invalid
  parameter" error for such a key; if no key is \<open>server\<close>, or no key is \<open>base-dir\<close>, it
  fails; if every entry is a \<open>server\<close> entry with the value \<open>s\<close> or a \<open>base-dir\<close> entry with
  the value \<open>b\<close>, both kinds occur and \<open>s\<close> and \<open>b\<close> are not empty, it builds the volume.
  Whenever it fails on the parameters of a request, \<open>CreateVolume\<close> answers
  \<open>InvalidArgument\<close> and returns the world as it was received.
\<close>

theorem C5_parameters:
  "((\<exists>k\<in>fst ` set params. lower k \<noteq> paramServer \<and> lower k \<noteq> paramBaseDir) \<longrightarrow>
      (\<exists>k\<in>fst ` set params. lower k \<noteq> paramServer \<and> lower k \<noteq> paramBaseDir \<and>
         newNFSVolume lower nm params = Inl (ErrInvalidParameter k))) \<and>
   ((\<forall>k\<in>fst ` set params. lower k \<noteq> paramServer) \<longrightarrow> isl (newNFSVolume lower nm params)) \<and>
   ((\<forall>k\<in>fst ` set params. lower k \<noteq> paramBaseDir) \<longrightarrow> isl (newNFSVolume lower nm params)) \<and>
   ((\<forall>(k, v)\<in>set params. lower k = paramServer \<and> v = s \<or> lower k = paramBaseDir \<and> v = b) \<and>
    (\<exists>k\<in>fst ` set params. lower k = paramServer) \<and>
    (\<exists>k\<in>fst ` set params. lower k = paramBaseDir) \<and> s \<noteq> [] \<and> b \<noteq> [] \<longrightarrow>
      newNFSVolume lower nm params =
        Inr \<lparr>id' = s @ ''/'' @ b @ ''/'' @ nm, server = s, baseDir = b, subDir = nm\<rparr>) \<and>
   (isl (newNFSVolume (strings_ToLower pf) (Name req) (Parameters req)) \<longrightarrow>
      status_Code (fst (CreateVolume pf cs req w)) = InvalidArgument \<and>
      snd (CreateVolume pf cs req w) = w)"
proof (intro conjI impI)
  assume "\<exists>k\<in>fst ` set params. lower k \<noteq> paramServer \<and> lower k \<noteq> paramBaseDir"
  then show "\<exists>k\<in>fst ` set params. lower k \<noteq> paramServer \<and> lower k \<noteq> paramBaseDir \<and>
         newNFSVolume lower nm params = Inl (ErrInvalidParameter k)"
    by (rule newNFSVolume_invalid)
next
  assume "\<forall>k\<in>fst ` set params. lower k \<noteq> paramServer"
  then show "isl (newNFSVolume lower nm params)"
    by (rule newNFSVolume_no_server(1))
next
  assume "\<forall>k\<in>fst ` set params. lower k \<noteq> paramBaseDir"
  then show "isl (newNFSVolume lower nm params)"
    by (rule newNFSVolume_no_baseDir)
next
  assume "(\<forall>(k, v)\<in>set params. lower k = paramServer \<and> v = s \<or> lower k = paramBaseDir \<and> v = b) \<and>
    (\<exists>k\<in>fst ` set params. lower k = paramServer) \<and>
    (\<exists>k\<in>fst ` set params. lower k = paramBaseDir) \<and> s \<noteq> [] \<and> b \<noteq> []"
  then show "newNFSVolume lower nm params =
        Inr \<lparr>id' = s @ ''/'' @ b @ ''/'' @ nm, server = s, baseDir = b, subDir = nm\<rparr>"
    using newNFSVolume_both [of params lower s b nm] by blast
next
  assume "isl (newNFSVolume (strings_ToLower pf) (Name req) (Parameters req))"
  then show "status_Code (fst (CreateVolume pf cs req w)) = InvalidArgument"
    by (rule CreateVolume_invalid_parameters(1))
next
  assume "isl (newNFSVolume (strings_ToLower pf) (Name req) (Parameters req))"
  then show "snd (CreateVolume pf cs req w) = w"
    by (rule CreateVolume_invalid_parameters(2))
qed

theorem C5_parameters_witness:
  "newNFSVolume ascii_ToLower ''test-csi'' [(''unknown-parameter'', ''foo'')]
     = Inl (ErrInvalidParameter ''unknown-parameter'') \<and>
   isl (newNFSVolume ascii_ToLower ''test-csi'' [(''Base-Dir'', ''test-base-dir'')]) \<and>
   isl (newNFSVolume ascii_ToLower ''test-csi'' [(''SERVER'', ''test-server'')]) \<and>
   newNFSVolume ascii_ToLower ''test-csi'' [(''SERVER'', ''test-server''), (''Base-Dir'', ''test-base-dir'')]
     = Inr \<lparr>id' = ''test-server/test-base-dir/test-csi'', server = ''test-server'',
            baseDir = ''test-base-dir'', subDir = ''test-csi''\<rparr> \<and>
   status_Code (fst (CreateVolume recording (NewControllerServer NewNFSdriver internalMountDir)
     \<lparr>Name = ''test-csi'', CapacityRange = None,
      VolumeCapabilities =
        [Some \<lparr>AccessType = Some (VolumeCapability_Mount (Some \<lparr>FsType = [], MountFlags = []\<rparr>)),
               AccessMode = Some \<lparr>Mode = MULTI_NODE_MULTI_WRITER\<rparr>\<rparr>],
      Parameters = [(''unknown-parameter'', ''foo'')]\<rparr> [])) = InvalidArgument \<and>
   snd (CreateVolume recording (NewControllerServer NewNFSdriver internalMountDir)
     \<lparr>Name = ''test-csi'', CapacityRange = None,
      VolumeCapabilities =
        [Some \<lparr>AccessType = Some (VolumeCapability_Mount (Some \<lparr>FsType = [], MountFlags = []\<rparr>)),
               AccessMode = Some \<lparr>Mode = MULTI_NODE_MULTI_WRITER\<rparr>\<rparr>],
      Parameters = [(''unknown-parameter'', ''foo'')]\<rparr> []) = []"
proof -
  have bad: "isl (newNFSVolume ascii_ToLower ''test-csi'' [(''unknown-parameter'', ''foo'')])"
    by code_simp
  show ?thesis
    using C5_parameters [of "[(''unknown-parameter'', ''foo'')]" ascii_ToLower "''test-csi''"
        "[]" "[]" recording
        "\<lparr>Name = ''test-csi'', CapacityRange = None,
      VolumeCapabilities =
        [Some \<lparr>AccessType = Some (VolumeCapability_Mount (Some \<lparr>FsType = [], MountFlags = []\<rparr>)),
               AccessMode = Some \<lparr>Mode = MULTI_NODE_MULTI_WRITER\<rparr>\<rparr>],
      Parameters = [(''unknown-parameter'', ''foo'')]\<rparr>"
        "NewControllerServer NewNFSdriver internalMountDir" "[]"]
      C5_parameters [of "[(''Base-Dir'', ''test-base-dir'')]" ascii_ToLower "''test-csi''"
        "[]" "[]" recording, THEN conjunct2, THEN conjunct1]
      C5_parameters [of "[(''SERVER'', ''test-server'')]" ascii_ToLower "''test-csi''"
        "[]" "[]" recording, THEN conjunct2, THEN conjunct2, THEN conjunct1]
      C5_parameters [of "[(''SERVER'', ''test-server''), (''Base-Dir'', ''test-base-dir'')]"
        ascii_ToLower "''test-csi''" "''test-server''" "''test-base-dir''" recording,
        THEN conjunct2, THEN conjunct2, THEN conjunct2, THEN conjunct1]
      bad
    by (simp add: ascii_ToLower_examples paramServer_def paramBaseDir_def recording_def)
qed

lemma param_names_distinct: "paramServer \<noteq> paramBaseDir"
  by (simp add: paramServer_def paramBaseDir_def)

lemma newNFSVolume_loop_drop_server:
  assumes "\<forall>(k', v')\<in>set params. lower k' = paramServer \<longrightarrow> k' = k \<and> v' = []"
    and "lower k = paramServer"
  shows "newNFSVolume_loop lower params [] bd =
           newNFSVolume_loop lower (filter (\<lambda>p. fst p \<noteq> k) params) [] bd"
  using assms
proof (induction params arbitrary: bd)
  case Nil
  show ?case by simp
next
  case (Cons p params)
  obtain k' v' where p: "p = (k', v')" by (cases p)
  from Cons.prems have rest: "\<forall>(k', v')\<in>set params. lower k' = paramServer \<longrightarrow> k' = k \<and> v' = []"
    by simp
  show ?case
  proof (cases "lower k' = paramServer")
    case True
    with Cons.prems p have "k' = k" "v' = []" by auto
    with True p Cons.IH [OF rest Cons.prems(2)] show ?thesis by simp
  next
    case False
    with Cons.prems(2) have "k' \<noteq> k" by auto
    with False p Cons.IH [OF rest Cons.prems(2)] show ?thesis by simp
  qed
qed

lemma newNFSVolume_loop_drop_baseDir:
  assumes "\<forall>(k', v')\<in>set params. lower k' = paramBaseDir \<longrightarrow> k' = k \<and> v' = []"
    and "lower k = paramBaseDir"
  shows "newNFSVolume_loop lower params srv [] =
           newNFSVolume_loop lower (filter (\<lambda>p. fst p \<noteq> k) params) srv []"
  using assms
proof (induction params arbitrary: srv)
  case Nil
  show ?case by simp
next
  case (Cons p params)
  obtain k' v' where p: "p = (k', v')" by (cases p)
  from Cons.prems have rest: "\<forall>(k', v')\<in>set params. lower k' = paramBaseDir \<longrightarrow> k' = k \<and> v' = []"
    by simp
  show ?case
  proof (cases "lower k' = paramBaseDir")
    case True
    with Cons.prems p have "k' = k" "v' = []" by auto
    with True p Cons.IH [OF rest Cons.prems(2)] param_names_distinct show ?thesis by simp
  next
    case False
    with Cons.prems(2) have "k' \<noteq> k" by auto
    with False p Cons.IH [OF rest Cons.prems(2)] show ?thesis by simp
  qed
qed

lemma newNFSVolume_empty_value:
  assumes present: "(k, []) \<in> set params"
    and name: "lower k = paramServer \<or> lower k = paramBaseDir"
    and only: "\<forall>(k', v')\<in>set params. lower k' = lower k \<longrightarrow> k' = k \<and> v' = []"
  shows "newNFSVolume lower nm params = newNFSVolume lower nm (filter (\<lambda>p. fst p \<noteq> k) params)"
    and "isl (newNFSVolume lower nm params)"
    and "\<forall>k'\<in>fst ` set params. lower k' = paramServer \<or> lower k' = paramBaseDir \<Longrightarrow>
           newNFSVolume lower nm params = Inl (ErrRequiredParameter paramServer) \<or>
           newNFSVolume lower nm params = Inl (ErrRequiredParameter paramBaseDir)"
proof -
  show "newNFSVolume lower nm params = newNFSVolume lower nm (filter (\<lambda>p. fst p \<noteq> k) params)"
  proof (cases "lower k = paramServer")
    case True
    with only newNFSVolume_loop_drop_server [of params lower k "[]"] show ?thesis
      by (simp add: newNFSVolume_def)
  next
    case False
    with name have "lower k = paramBaseDir" by simp
    with only newNFSVolume_loop_drop_baseDir [of params lower k "[]"] show ?thesis
      by (simp add: newNFSVolume_def)
  qed
  have required: "newNFSVolume lower nm params = Inl (ErrRequiredParameter paramServer) \<or>
           newNFSVolume lower nm params = Inl (ErrRequiredParameter paramBaseDir)"
    if valid: "\<forall>k'\<in>fst ` set params. lower k' = paramServer \<or> lower k' = paramBaseDir"
  proof -
    from newNFSVolume_loop_valid [OF valid, of "[]" "[]"] obtain srv' bd' where
      run: "newNFSVolume_loop lower params [] [] = Inr (srv', bd')"
      and s: "srv' = [] \<and> (\<forall>k\<in>fst ` set params. lower k \<noteq> paramServer) \<or>
            (\<exists>k. (k, srv') \<in> set params \<and> lower k = paramServer)"
      and b: "bd' = [] \<and> (\<forall>k\<in>fst ` set params. lower k \<noteq> paramBaseDir) \<or>
            (\<exists>k. (k, bd') \<in> set params \<and> lower k = paramBaseDir)"
      by blast
    show ?thesis
    proof (cases "lower k = paramServer")
      case True
      with s only have "srv' = []" by auto
      with run show ?thesis by (simp add: newNFSVolume_def)
    next
      case False
      with name have "lower k = paramBaseDir" by simp
      with b only have "bd' = []" by auto
      with run show ?thesis by (simp add: newNFSVolume_def)
    qed
  qed
  then show "\<forall>k'\<in>fst ` set params. lower k' = paramServer \<or> lower k' = paramBaseDir \<Longrightarrow>
           newNFSVolume lower nm params = Inl (ErrRequiredParameter paramServer) \<or>
           newNFSVolume lower nm params = Inl (ErrRequiredParameter paramBaseDir)" .
  show "isl (newNFSVolume lower nm params)"
  proof (cases "\<forall>k'\<in>fst ` set params. lower k' = paramServer \<or> lower k' = paramBaseDir")
    case True
    from required [OF True] show ?thesis by auto
  next
    case False
    then have "\<exists>k\<in>fst ` set params. lower k \<noteq> paramServer \<and> lower k \<noteq> paramBaseDir"
      by blast
    from newNFSVolume_invalid [OF this, of nm] show ?thesis by auto
  qed
qed

text \<open>
  Claim C9, as stated, fails. Keys that differ only in case are different keys of the
  parameter map and assign the same variable, and the last one visited wins. When the
  loop visits \<open>server\<close> (mapped to the empty string) before \<open>SERVER\<close> (mapped to \<open>x\<close>), the
  volume is built although the key \<open>server\<close> is present with an empty value.
\<close>

theorem C9_counterexample:
  "newNFSVolume ascii_ToLower ''vol'' [(''server'', []), (''SERVER'', ''x''), (''base-dir'', ''b'')]
     = Inr \<lparr>id' = ''x/b/vol'', server = ''x'', baseDir = ''b'', subDir = ''vol''\<rparr>"
  by code_simp

text \<open>
  Claim C9, amended. Let a key that lower-cases to \<open>server\<close> or to \<open>base-dir\<close> be mapped to
  the empty string, and let no other key of the map lower-case to the same name. Then
  \<open>newNFSVolume\<close> returns what it returns on the map without that key, it fails, and
  when every key of the map is recognised the error is one of the two
  "is a required parameter" errors.
\<close>

theorem C9_empty_value_as_missing:
  assumes "distinct (map fst params)"
    and "(k, []) \<in> set params"
    and "lower k = paramServer \<or> lower k = paramBaseDir"
    and "\<forall>k'\<in>fst ` set params. lower k' = lower k \<longrightarrow> k' = k"
  shows "newNFSVolume lower nm params = newNFSVolume lower nm (filter (\<lambda>p. fst p \<noteq> k) params) \<and>
         isl (newNFSVolume lower nm params) \<and>
         ((\<forall>k'\<in>fst ` set params. lower k' = paramServer \<or> lower k' = paramBaseDir) \<longrightarrow>
            newNFSVolume lower nm params = Inl (ErrRequiredParameter paramServer) \<or>
            newNFSVolume lower nm params = Inl (ErrRequiredParameter paramBaseDir))"
proof -
  have only: "\<forall>(k', v')\<in>set params. lower k' = lower k \<longrightarrow> k' = k \<and> v' = []"
  proof (clarify)
    fix k' v'
    assume mem: "(k', v') \<in> set params" and "lower k' = lower k"
    with assms(4) have "k' = k" by force
    moreover from this mem assms(1,2) have "v' = []"
      by (meson eq_key_imp_eq_value)
    ultimately show "k' = k \<and> v' = []" by simp
  qed
  from newNFSVolume_empty_value [OF assms(2,3) only, of nm] show ?thesis
    by blast
qed

theorem C9_empty_value_as_missing_witness:
  "newNFSVolume ascii_ToLower ''vol'' [(''server'', []), (''base-dir'', ''b'')]
     = newNFSVolume ascii_ToLower ''vol'' [(''base-dir'', ''b'')] \<and>
   newNFSVolume ascii_ToLower ''vol'' [(''server'', []), (''base-dir'', ''b'')]
     = Inl (ErrRequiredParameter paramServer)"
proof -
  have run: "newNFSVolume ascii_ToLower ''vol'' [(''base-dir'', ''b'')] = Inl (ErrRequiredParameter paramServer)"
    by code_simp
  show ?thesis
    using C9_empty_value_as_missing [of "[(''server'', []), (''base-dir'', ''b'')]" "''server''"
        ascii_ToLower "''vol''"] run
    by (simp add: ascii_ToLower_examples paramServer_def paramBaseDir_def)
qed

section \<open>Creating a volume\<close>

lemma clean_element_plain: "plain_segment e \<Longrightarrow> clean_element rooted out e = out @ [e]"
  by (simp add: clean_element_def plain_segment_def)

lemma clean_element_empty: "clean_element rooted out [] = out"
  by (simp add: clean_element_def)

lemma foldl_clean_element_plain:
  "list_all plain_segment es \<Longrightarrow> foldl (clean_element rooted) out es = out @ es"
  by (induction es arbitrary: out) (simp_all add: clean_element_plain)

lemma strings_Split_segments:
  "CHR ''/'' \<notin> set e \<Longrightarrow> \<forall>x\<in>set es. CHR ''/'' \<notin> set x \<Longrightarrow>
     strings_Split (e @ abs_path es) CHR ''/'' = e # es"
proof (induction es arbitrary: e)
  case Nil
  then show ?case by (simp add: strings_Split_no_sep)
next
  case (Cons x es)
  then have "strings_Split (x @ abs_path es) CHR ''/'' = x # es"
    by simp
  with Cons.prems(1) show ?case
    by (simp add: strings_Split_append)
qed

lemma strings_Split_abs_path:
  "\<forall>x\<in>set es. CHR ''/'' \<notin> set x \<Longrightarrow> strings_Split (abs_path es) CHR ''/'' = [] # es"
  using strings_Split_segments [of "[]" es] by simp

lemma strings_Join_abs_path:
  "es \<noteq> [] \<Longrightarrow> ''/'' @ strings_Join es ''/'' = abs_path es"
proof (induction es)
  case Nil
  then show ?case by simp
next
  case (Cons e es)
  then show ?case by (cases es) simp_all
qed

lemma filepath_Clean_abs_path:
  assumes "es \<noteq> []" "list_all plain_segment es"
  shows "filepath_Clean (abs_path es) = abs_path es"
proof -
  from assms(1) obtain e es' where es: "es = e # es'" by (cases es) auto
  then have hd: "abs_path es \<noteq> []" "hd (abs_path es) = CHR ''/''"
    by simp_all
  have noslash: "\<forall>x\<in>set es. CHR ''/'' \<notin> set x"
    using assms(2) by (simp add: list_all_iff plain_segment_def)
  have "foldl (clean_element True) [] (strings_Split (abs_path es) CHR ''/'') = es"
    using assms(2) by (simp add: strings_Split_abs_path [OF noslash] clean_element_empty
        foldl_clean_element_plain)
  with hd strings_Join_abs_path [OF assms(1)] show ?thesis
    by (simp add: filepath_Clean_def)
qed

lemma abs_path_append: "abs_path (es @ fs) = abs_path es @ abs_path fs"
  by (induction es) simp_all

lemma filepath_Join_abs_path:
  assumes "es \<noteq> []" "list_all plain_segment es" "plain_segment n"
  shows "filepath_Join [abs_path es, n] = abs_path es @ ''/'' @ n"
proof -
  from assms(1) have ne: "abs_path es \<noteq> []" by (cases es) simp_all
  have "filepath_Join [abs_path es, n] = filepath_Clean (strings_Join [abs_path es, n] ''/'')"
    using ne by simp
  also have "\<dots> = filepath_Clean (abs_path (es @ [n]))"
    by (simp add: abs_path_append)
  also have "\<dots> = abs_path (es @ [n])"
    using assms by (intro filepath_Clean_abs_path) simp_all
  also have "\<dots> = abs_path es @ ''/'' @ n"
    by (simp add: abs_path_append)
  finally show ?thesis .
qed

lemma filepath_Join_twice:
  assumes "es \<noteq> []" "list_all plain_segment es" "plain_segment n"
  shows "filepath_Join [filepath_Join [abs_path es, n], n] = abs_path es @ ''/'' @ n @ ''/'' @ n"
proof -
  have inner: "filepath_Join [abs_path es, n] = abs_path es @ ''/'' @ n"
    using assms by (rule filepath_Join_abs_path)
  have shape: "abs_path es @ ''/'' @ n = abs_path (es @ [n])"
    by (simp add: abs_path_append)
  have "filepath_Join [abs_path (es @ [n]), n] = abs_path (es @ [n]) @ ''/'' @ n"
    using assms by (intro filepath_Join_abs_path) simp_all
  then show ?thesis
    unfolding inner shape by (simp add: abs_path_append)
qed

lemma filepath_Join_share:
  assumes "plain_segment b" "plain_segment n"
  shows "filepath_Join [''/'', b, n] = ''/'' @ b @ ''/'' @ n"
proof -
  have "strings_Join [''/'', b, n] ''/'' = ''/'' @ abs_path [b, n]"
    by simp
  moreover have "strings_Split (''/'' @ abs_path [b, n]) CHR ''/'' = [[], [], b, n]"
    using assms strings_Split_abs_path [of "[b, n]"]
    by (simp add: strings_Split_Cons_sep plain_segment_def)
  moreover have "foldl (clean_element True) [] [[], [], b, n] = [b, n]"
    using assms by (simp add: clean_element_empty clean_element_plain)
  ultimately show ?thesis
    by (simp add: filepath_Clean_def)
qed

lemma filepath_Join_base:
  assumes "plain_segment b"
  shows "filepath_Join [''/'' @ b] = ''/'' @ b"
  using filepath_Clean_abs_path [of "[b]"] assms by simp

lemma CreateVolume_success:
  assumes nm: "Name req \<noteq> []"
    and caps: "validateVolumeCapabilities cs (VolumeCapabilities req) = None"
    and vol: "newNFSVolume (strings_ToLower pf) (Name req) (Parameters req) = Inr vol"
    and mount: "internalMount pf cs vol w = (None, w1)"
    and mkdir: "os_Mkdir pf (getInternalVolumePath cs vol) 493 w1 = (None, w2)"
    and unmount: "internalUnmount pf cs vol w2 = (e, w3)"
  shows "CreateVolume pf cs req w =
           (Inr \<lparr>Volume = nfsVolToCSI cs vol (GetRequiredBytes (CapacityRange req))\<rparr>, w3)"
  using assms by (simp add: CreateVolume_def)

lemma validateVolumeCapabilities_example:
  "validateVolumeCapabilities (NewControllerServer NewNFSdriver internalMountDir)
     [Some \<lparr>AccessType = Some (VolumeCapability_Mount (Some \<lparr>FsType = [], MountFlags = []\<rparr>)),
            AccessMode = Some \<lparr>Mode = MULTI_NODE_MULTI_WRITER\<rparr>\<rparr>] = None"
  by (simp add: validateVolumeCapabilities_def validateVolumeCapability_mount
      NewControllerServer_def cap_index_NewNFSdriver)

text \<open>
  Claim C3, as stated, fails: the share path of the response and the paths of the mount
  and of the new directory are built with \<open>filepath.Join\<close>, which cleans its result. For
  the name \<open>v\<close>, the server \<open>s\<close> and the base directory \<open>.\<close> every step succeeds on the
  recording platform, the identifier is \<open>s/./v\<close>, and the share of the volume context is
  \<open>/v\<close>, not \<open>/./v\<close>.
\<close>

theorem C3_counterexample:
  "CreateVolume recording (NewControllerServer NewNFSdriver internalMountDir)
     \<lparr>Name = ''v'', CapacityRange = None,
      VolumeCapabilities =
        [Some \<lparr>AccessType = Some (VolumeCapability_Mount (Some \<lparr>FsType = [], MountFlags = []\<rparr>)),
               AccessMode = Some \<lparr>Mode = MULTI_NODE_MULTI_WRITER\<rparr>\<rparr>],
      Parameters = [(''server'', ''s''), (''base-dir'', ''.'')]\<rparr> []
   = (Inr \<lparr>Volume =
            \<lparr>CapacityBytes = 0,
             csi_Volume.VolumeId = ''s/./v'',
             csi_Volume.VolumeContext = [attrServer \<mapsto> ''s'', attrShare \<mapsto> ''/v'']\<rparr>\<rparr>,
      [CallNodePublishVolume
         \<lparr>NodePublishVolumeRequest.TargetPath = ''/provisioner-working-mounts/v'',
          NodePublishVolumeRequest.VolumeContext = [''server'' \<mapsto> ''s'', ''share'' \<mapsto> ''/'']\<rparr>,
       CallMkdir ''/provisioner-working-mounts/v/v'' 493,
       CallNodeUnpublishVolume
         \<lparr>NodeUnpublishVolumeRequest.TargetPath = ''/provisioner-working-mounts/v''\<rparr>]) \<and>
   ''/v'' \<noteq> ''/'' @ ''.'' @ ''/'' @ ''v''"
proof -
  define vol where "vol = \<lparr>id' = ''s/./v'', server = ''s'', baseDir = ''.'', subDir = ''v''\<rparr>"
  have built: "newNFSVolume ascii_ToLower ''v'' [(''server'', ''s''), (''base-dir'', ''.'')] = Inr vol"
    unfolding vol_def by code_simp
  have paths: "filepath_Join [''/'' @ ''.''] = ''/''"
    "filepath_Join [internalMountDir, ''v''] = ''/provisioner-working-mounts/v''"
    "filepath_Join [''/provisioner-working-mounts/v'', ''v''] = ''/provisioner-working-mounts/v/v''"
    "filepath_Join [''/'', ''.'', ''v''] = ''/v''"
    by code_simp+
  have "internalMount recording (NewControllerServer NewNFSdriver internalMountDir) vol [] =
      (None, [CallNodePublishVolume
         \<lparr>NodePublishVolumeRequest.TargetPath = ''/provisioner-working-mounts/v'',
          NodePublishVolumeRequest.VolumeContext = [''server'' \<mapsto> ''s'', ''share'' \<mapsto> ''/'']\<rparr>])"
    using paths(1,2)
    by (simp add: internalMount_def getInternalMountPath_def NewControllerServer_def recording_def vol_def)
  moreover have "getInternalVolumePath (NewControllerServer NewNFSdriver internalMountDir) vol
      = ''/provisioner-working-mounts/v/v''"
    using paths(2,3) by (simp add: getInternalVolumePath_def getInternalMountPath_def
        NewControllerServer_def vol_def)
  moreover have "internalUnmount recording (NewControllerServer NewNFSdriver internalMountDir) vol w =
      (None, w @ [CallNodeUnpublishVolume
         \<lparr>NodeUnpublishVolumeRequest.TargetPath = ''/provisioner-working-mounts/v''\<rparr>])" for w
    using paths(2)
    by (simp add: internalUnmount_def getInternalMountPath_def NewControllerServer_def recording_def vol_def)
  moreover have "nfsVolToCSI (NewControllerServer NewNFSdriver internalMountDir) vol 0 =
      \<lparr>CapacityBytes = 0, csi_Volume.VolumeId = ''s/./v'',
       csi_Volume.VolumeContext = [attrServer \<mapsto> ''s'', attrShare \<mapsto> ''/v'']\<rparr>"
    using paths(4) by (simp add: nfsVolToCSI_def getVolumeSharePath_def vol_def)
  moreover have "strings_ToLower recording = ascii_ToLower"
    "os_Mkdir recording p m w = (None, w @ [CallMkdir p m])" for p m w
    by (simp_all add: recording_def)
  ultimately show ?thesis
    using built validateVolumeCapabilities_example
    by (simp add: CreateVolume_def GetRequiredBytes_def Let_def)
qed

text \<open>
  Claim C3, amended. Let the name \<open>n\<close> and the base directory \<open>b\<close> be plain segments, the
  capability list be valid, every parameter be a \<open>server\<close> entry with the non-empty
  value \<open>s\<close> or a \<open>base-dir\<close> entry with the value \<open>b\<close>, both kinds occurring. If the node
  server mounts \<open>s:/b\<close> at \<open>filepath.Join(workingMountDir, n)\<close> and \<open>os.Mkdir\<close> creates
  \<open>filepath.Join(filepath.Join(workingMountDir, n), n)\<close> with mode \<open>0755\<close>, then after
  the unmount of the same target (whatever it returns) \<open>CreateVolume\<close> answers with the
  volume id \<open>s/b/n\<close>, the context \<open>server = s\<close>, \<open>share = /b/n\<close> and the required bytes of
  the request as capacity. When the working directory is an absolute path of plain
  segments, the directory created is \<open>workingMountDir/n/n\<close>.
\<close>

theorem C3_create_volume:
  assumes name: "plain_segment (Name req)"
    and caps: "validateVolumeCapabilities cs (VolumeCapabilities req) = None"
    and params: "\<forall>(k, v)\<in>set (Parameters req).
        strings_ToLower pf k = paramServer \<and> v = s \<or> strings_ToLower pf k = paramBaseDir \<and> v = b"
      "\<exists>k\<in>fst ` set (Parameters req). strings_ToLower pf k = paramServer"
      "\<exists>k\<in>fst ` set (Parameters req). strings_ToLower pf k = paramBaseDir"
    and server: "s \<noteq> []"
    and base: "plain_segment b"
    and mount: "NodePublishVolume pf
        \<lparr>NodePublishVolumeRequest.TargetPath = filepath_Join [workingMountDir cs, Name req],
         NodePublishVolumeRequest.VolumeContext = [''server'' \<mapsto> s, ''share'' \<mapsto> ''/'' @ b]\<rparr> w
        = (None, w1)"
    and mkdir: "os_Mkdir pf
        (filepath_Join [filepath_Join [workingMountDir cs, Name req], Name req]) 493 w1 = (None, w2)"
    and unmount: "NodeUnpublishVolume pf
        \<lparr>NodeUnpublishVolumeRequest.TargetPath = filepath_Join [workingMountDir cs, Name req]\<rparr> w2
        = (e, w3)"
  shows "CreateVolume pf cs req w =
           (Inr \<lparr>Volume =
                  \<lparr>CapacityBytes = GetRequiredBytes (CapacityRange req),
                   csi_Volume.VolumeId = s @ ''/'' @ b @ ''/'' @ Name req,
                   csi_Volume.VolumeContext =
                     [attrServer \<mapsto> s, attrShare \<mapsto> ''/'' @ b @ ''/'' @ Name req]\<rparr>\<rparr>, w3) \<and>
         (workingMountDir cs = abs_path dirs \<and> dirs \<noteq> [] \<and> list_all plain_segment dirs \<longrightarrow>
            filepath_Join [filepath_Join [workingMountDir cs, Name req], Name req]
              = workingMountDir cs @ ''/'' @ Name req @ ''/'' @ Name req)"
proof (rule conjI)
  define vol where
    "vol = \<lparr>id' = s @ ''/'' @ b @ ''/'' @ Name req, server = s, baseDir = b, subDir = Name req\<rparr>"
  from name base have ne: "Name req \<noteq> []" "b \<noteq> []"
    by (simp_all add: plain_segment_def)
  have built: "newNFSVolume (strings_ToLower pf) (Name req) (Parameters req) = Inr vol"
    unfolding vol_def using params server ne(2) by (rule newNFSVolume_both)
  have share: "getVolumeSharePath cs vol = ''/'' @ b @ ''/'' @ Name req"
    using filepath_Join_share [OF base name] by (simp add: getVolumeSharePath_def vol_def)
  have "filepath_Join [''/'' @ baseDir vol] = ''/'' @ b"
    using filepath_Join_base [OF base] by (simp add: vol_def)
  with mount have m: "internalMount pf cs vol w = (None, w1)"
    by (simp add: internalMount_def getInternalMountPath_def vol_def)
  from mkdir have d: "os_Mkdir pf (getInternalVolumePath cs vol) 493 w1 = (None, w2)"
    by (simp add: getInternalVolumePath_def getInternalMountPath_def vol_def)
  from unmount have u: "internalUnmount pf cs vol w2 = (e, w3)"
    by (simp add: internalUnmount_def getInternalMountPath_def vol_def)
  have "CreateVolume pf cs req w =
           (Inr \<lparr>Volume = nfsVolToCSI cs vol (GetRequiredBytes (CapacityRange req))\<rparr>, w3)"
    using ne(1) caps built m d u by (rule CreateVolume_success)
  moreover have "nfsVolToCSI cs vol (GetRequiredBytes (CapacityRange req)) =
      \<lparr>CapacityBytes = GetRequiredBytes (CapacityRange req),
       csi_Volume.VolumeId = s @ ''/'' @ b @ ''/'' @ Name req,
       csi_Volume.VolumeContext =
         [attrServer \<mapsto> s, attrShare \<mapsto> ''/'' @ b @ ''/'' @ Name req]\<rparr>"
    unfolding nfsVolToCSI_def share by (simp add: vol_def)
  ultimately show "CreateVolume pf cs req w =
           (Inr \<lparr>Volume =
                  \<lparr>CapacityBytes = GetRequiredBytes (CapacityRange req),
                   csi_Volume.VolumeId = s @ ''/'' @ b @ ''/'' @ Name req,
                   csi_Volume.VolumeContext =
                     [attrServer \<mapsto> s, attrShare \<mapsto> ''/'' @ b @ ''/'' @ Name req]\<rparr>\<rparr>, w3)"
    by simp
next
  show "workingMountDir cs = abs_path dirs \<and> dirs \<noteq> [] \<and> list_all plain_segment dirs \<longrightarrow>
            filepath_Join [filepath_Join [workingMountDir cs, Name req], Name req]
              = workingMountDir cs @ ''/'' @ Name req @ ''/'' @ Name req"
    using filepath_Join_twice [of dirs "Name req"] name by auto
qed

theorem C3_create_volume_witness:
  "CreateVolume recording (NewControllerServer NewNFSdriver internalMountDir)
     \<lparr>Name = ''vol1'', CapacityRange = Some \<lparr>RequiredBytes = 1024, LimitBytes = 0\<rparr>,
      VolumeCapabilities =
        [Some \<lparr>AccessType = Some (VolumeCapability_Mount (Some \<lparr>FsType = [], MountFlags = []\<rparr>)),
               AccessMode = Some \<lparr>Mode = MULTI_NODE_MULTI_WRITER\<rparr>\<rparr>],
      Parameters = [(''server'', ''s''), (''base-dir'', ''b'')]\<rparr> []
   = (Inr \<lparr>Volume =
            \<lparr>CapacityBytes = 1024,
             csi_Volume.VolumeId = ''s/b/vol1'',
             csi_Volume.VolumeContext = [attrServer \<mapsto> ''s'', attrShare \<mapsto> ''/b/vol1'']\<rparr>\<rparr>,
      [CallNodePublishVolume
         \<lparr>NodePublishVolumeRequest.TargetPath = ''/provisioner-working-mounts/vol1'',
          NodePublishVolumeRequest.VolumeContext = [''server'' \<mapsto> ''s'', ''share'' \<mapsto> ''/b'']\<rparr>,
       CallMkdir ''/provisioner-working-mounts/vol1/vol1'' 493,
       CallNodeUnpublishVolume
         \<lparr>NodeUnpublishVolumeRequest.TargetPath = ''/provisioner-working-mounts/vol1''\<rparr>]) \<and>
   filepath_Join [filepath_Join [internalMountDir, ''vol1''], ''vol1'']
     = ''/provisioner-working-mounts/vol1/vol1''"
proof -
  let ?cs = "NewControllerServer NewNFSdriver internalMountDir"
  let ?req = "\<lparr>Name = ''vol1'', CapacityRange = Some \<lparr>RequiredBytes = 1024, LimitBytes = 0\<rparr>,
      VolumeCapabilities =
        [Some \<lparr>AccessType = Some (VolumeCapability_Mount (Some \<lparr>FsType = [], MountFlags = []\<rparr>)),
               AccessMode = Some \<lparr>Mode = MULTI_NODE_MULTI_WRITER\<rparr>\<rparr>],
      Parameters = [(''server'', ''s''), (''base-dir'', ''b'')]\<rparr>"
  let ?w1 = "[CallNodePublishVolume
         \<lparr>NodePublishVolumeRequest.TargetPath = filepath_Join [workingMountDir ?cs, Name ?req],
          NodePublishVolumeRequest.VolumeContext = [''server'' \<mapsto> ''s'', ''share'' \<mapsto> ''/'' @ ''b'']\<rparr>]"
  let ?w2 = "?w1 @ [CallMkdir (filepath_Join [filepath_Join [workingMountDir ?cs, Name ?req], Name ?req]) 493]"
  let ?w3 = "?w2 @ [CallNodeUnpublishVolume
         \<lparr>NodeUnpublishVolumeRequest.TargetPath = filepath_Join [workingMountDir ?cs, Name ?req]\<rparr>]"
  have paths: "filepath_Join [internalMountDir, ''vol1''] = ''/provisioner-working-mounts/vol1''"
    "filepath_Join [''/provisioner-working-mounts/vol1'', ''vol1'']
       = ''/provisioner-working-mounts/vol1/vol1''"
    by code_simp+
  have wd: "workingMountDir ?cs = abs_path [''provisioner-working-mounts'']"
    by (simp add: NewControllerServer_def internalMountDir_def)
  have plain: "plain_segment (Name ?req)" "plain_segment ''b''"
    "list_all plain_segment [''provisioner-working-mounts'']"
    by (simp_all add: plain_segment_def)
  have params: "\<forall>(k, v)\<in>set (Parameters ?req).
        strings_ToLower recording k = paramServer \<and> v = ''s'' \<or>
        strings_ToLower recording k = paramBaseDir \<and> v = ''b''"
      "\<exists>k\<in>fst ` set (Parameters ?req). strings_ToLower recording k = paramServer"
      "\<exists>k\<in>fst ` set (Parameters ?req). strings_ToLower recording k = paramBaseDir"
    by (simp_all add: recording_def ascii_ToLower_examples paramServer_def paramBaseDir_def)
  have caps: "validateVolumeCapabilities ?cs (VolumeCapabilities ?req) = None"
    using validateVolumeCapabilities_example by simp
  have calls: "NodePublishVolume recording
        \<lparr>NodePublishVolumeRequest.TargetPath = filepath_Join [workingMountDir ?cs, Name ?req],
         NodePublishVolumeRequest.VolumeContext = [''server'' \<mapsto> ''s'', ''share'' \<mapsto> ''/'' @ ''b'']\<rparr> []
        = (None, ?w1)"
    "os_Mkdir recording
        (filepath_Join [filepath_Join [workingMountDir ?cs, Name ?req], Name ?req]) 493 ?w1 = (None, ?w2)"
    "NodeUnpublishVolume recording
        \<lparr>NodeUnpublishVolumeRequest.TargetPath = filepath_Join [workingMountDir ?cs, Name ?req]\<rparr> ?w2
        = (None, ?w3)"
    by (simp_all add: recording_def)
  have s: "''s'' \<noteq> []" by simp
  from C3_create_volume [OF plain(1) caps params s plain(2) calls,
      of "[''provisioner-working-mounts'']"] wd plain(3) paths
  show ?thesis
    by (simp add: NewControllerServer_def GetRequiredBytes_def internalMountDir_def)
qed

end
